theory Spec2Isabelle
  imports Complex_Main "HOL-Library.Word" "HOL-Library.Multiset" "HOL-Library.Log_Nat"
begin

section \<open>JavaScript values used by src/lib/chat.ts\<close>

text \<open>
  A JavaScript string is a sequence of UTF-16 code units; \<open>length\<close> counts code units
  and \<open>===\<close> compares them one by one.
\<close>

type_synonym jsstring = "16 word list"

definition js :: "string \<Rightarrow> jsstring" where
  "js s = map of_char s"

text \<open>
  \<open>String.prototype.trim\<close> removes the WhiteSpace and LineTerminator code points of
  ECMAScript from both ends; all of them are single code units.
\<close>

definition isWhiteSpace :: "16 word \<Rightarrow> bool" where
  "isWhiteSpace c \<longleftrightarrow> c \<in> set [0x9, 0xA, 0xB, 0xC, 0xD, 0x20, 0xA0, 0x1680,
     0x2000, 0x2001, 0x2002, 0x2003, 0x2004, 0x2005, 0x2006, 0x2007, 0x2008, 0x2009, 0x200A,
     0x2028, 0x2029, 0x202F, 0x205F, 0x3000, 0xFEFF]"

definition trim :: "jsstring \<Rightarrow> jsstring" where
  "trim s = rev (dropWhile isWhiteSpace (rev (dropWhile isWhiteSpace s)))"

text \<open>Truthiness of a \<open>string | null\<close> value: null and the empty string are falsy.\<close>

definition truthy :: "jsstring option \<Rightarrow> bool" where
  "truthy v \<longleftrightarrow> (case v of None \<Rightarrow> False | Some s \<Rightarrow> s \<noteq> [])"

text \<open>\<open>a || b\<close> on \<open>string | null\<close> operands.\<close>

definition or_else :: "jsstring option \<Rightarrow> jsstring option \<Rightarrow> jsstring option" where
  "or_else a b = (if truthy a then a else b)"








section \<open>Rows and tables\<close>

type_synonym uuid = string

text \<open>
  A timestamp is the value \<open>new Date(s).getTime()\<close> of the stored ISO string, in
  milliseconds; stored times less than a millisecond apart are not told apart.
\<close>

type_synonym timestamp = int

datatype BookingStatus =
  pending | approved | rejected | cancelled | status_handed_over | status_delivered

datatype HandoffStep = none | sender_confirmed | handed_over | delivered

record booking_request =
  b_id :: uuid
  b_user_id :: uuid
  b_announcement_id :: uuid
  b_status :: BookingStatus
  b_handoff_step :: "HandoffStep option"
  b_delivery_code :: "jsstring option"

record announcement =
  a_id :: uuid
  a_user_id :: uuid
  a_departure_city :: jsstring
  a_destination_city :: jsstring
  a_departure_date :: jsstring

record profile =
  p_id :: uuid
  p_first_name :: "jsstring option"
  p_last_name :: "jsstring option"
  p_avatar_url :: "jsstring option"
  p_email :: "jsstring option"
  p_username :: "jsstring option"

record message =
  m_id :: uuid
  m_booking_request_id :: uuid
  m_sender_id :: uuid
  m_content :: jsstring
  m_is_system :: bool
  m_read_at :: "timestamp option"
  m_created_at :: timestamp

record rating =
  r_id :: uuid
  r_booking_request_id :: uuid
  r_rater_id :: uuid
  r_rated_id :: uuid
  r_score :: int
  r_comment :: "jsstring option"
  r_created_at :: timestamp

record db =
  booking_requests :: "booking_request list"
  announcements :: "announcement list"
  profiles :: "profile list"
  messages :: "message list"
  ratings :: "rating list"

section \<open>The runtime outside the repository\<close>

text \<open>
  Every request to the storage service can fail. The request sites of chat.ts are named,
  those inside the loop of fetchConversations by the booking they are made for.
\<close>

datatype site =
    SendMessage_insert
  | MarkAsRead_update
  | FetchConversations_bookings
  | FetchConversations_ann uuid
  | FetchConversations_profile uuid
  | FetchConversations_lastMsg uuid
  | FetchConversations_count uuid
  | ConfirmHandoff_update
  | ConfirmHandoff_insert
  | ValidateDeliveryCode_select
  | ValidateDeliveryCode_update
  | ValidateDeliveryCode_insert
  | FetchHandoffStep_select
  | SubmitRating_insert
  | FetchUserAverageRating_select

text \<open>
  What a call takes from outside the repository: which requests the storage service
  rejects (a rejected write changes nothing), the clock, the identifier the storage
  gives to an inserted row, the engine's \<open>String.prototype.toUpperCase\<close> and the
  successive values of \<open>Math.random()\<close>.
\<close>

record runtime =
  fails :: "site \<Rightarrow> bool"
  now :: timestamp
  new_id :: uuid
  toUpperCase :: "jsstring \<Rightarrow> jsstring"
  random :: "nat \<Rightarrow> real"

text \<open>
  \<open>Error msg\<close> is \<open>new Error(msg)\<close> thrown by chat.ts itself; \<open>PostgrestError\<close> is
  the error object of a failed storage request. A response is \<open>{data, error}\<close> with
  exactly one of the two set (\<open>Inl\<close> the error, \<open>Inr\<close> the data), except that
  \<open>.maybeSingle()\<close> answers null data without an error when no row matches; so the tests
  \<open>!data\<close> and \<open>!bookings\<close> that follow a test of the error select no further case.
\<close>

datatype error = Error string | PostgrestError

definition request :: "runtime \<Rightarrow> site \<Rightarrow> (error + 'a) \<Rightarrow> error + 'a" where
  "request rt s r = (if fails rt s then Inl PostgrestError else r)"

text \<open>\<open>.single()\<close>: an error unless exactly one row matches.\<close>

definition single :: "'a list \<Rightarrow> error + 'a" where
  "single rows = (case rows of [r] \<Rightarrow> Inr r | _ \<Rightarrow> Inl PostgrestError)"

text \<open>\<open>.maybeSingle()\<close>: null for no row, an error for more than one.\<close>

definition maybeSingle :: "'a list \<Rightarrow> error + 'a option" where
  "maybeSingle rows =
     (case rows of [] \<Rightarrow> Inr None | [r] \<Rightarrow> Inr (Some r) | _ \<Rightarrow> Inl PostgrestError)"

text \<open>\<open>.update(f).eq('id', i)\<close> on booking_requests.\<close>

definition update_booking ::
  "uuid \<Rightarrow> (booking_request \<Rightarrow> booking_request) \<Rightarrow> db \<Rightarrow> db" where
  "update_booking i f d =
     d\<lparr>booking_requests := map (\<lambda>b. if b_id b = i then f b else b) (booking_requests d)\<rparr>"

text \<open>
  \<open>.insert({booking_request_id, sender_id, content, is_system?})\<close> on messages.
  Modelled from the spec: the column defaults of the messages table, whose schema is not
  in the repository (\<open>read_at\<close> nullable and set by the recipient, \<open>is_system\<close> true only
  for protocol-generated entries); the storage supplies \<open>id\<close> and \<open>created_at\<close>.
\<close>

definition new_message :: "runtime \<Rightarrow> uuid \<Rightarrow> uuid \<Rightarrow> jsstring \<Rightarrow> bool \<Rightarrow> message" where
  "new_message rt bookingRequestId senderId content is_system =
     \<lparr>m_id = new_id rt, m_booking_request_id = bookingRequestId, m_sender_id = senderId,
      m_content = content, m_is_system = is_system, m_read_at = None,
      m_created_at = now rt\<rparr>"

definition insert_message :: "message \<Rightarrow> db \<Rightarrow> db" where
  "insert_message m d = d\<lparr>messages := messages d @ [m]\<rparr>"

section \<open>fetchHandoffStep\<close>

definition fetchHandoffStep :: "runtime \<Rightarrow> db \<Rightarrow> uuid \<Rightarrow> error + HandoffStep" where
  "fetchHandoffStep rt d bookingRequestId =
     (case request rt FetchHandoffStep_select
             (single (filter (\<lambda>b. b_id b = bookingRequestId) (booking_requests d))) of
        Inl e \<Rightarrow> Inr none
      | Inr data \<Rightarrow>
          Inr (case b_handoff_step data of None \<Rightarrow> none | Some step \<Rightarrow> step))"

section \<open>sendMessage and markAsRead\<close>

definition sendMessage ::
  "runtime \<Rightarrow> db \<Rightarrow> uuid \<Rightarrow> uuid \<Rightarrow> jsstring \<Rightarrow> (error + message) \<times> db" where
  "sendMessage rt d bookingRequestId senderId content =
     (let trimmed = trim content in
      if trimmed = [] \<or> length trimmed > 2000
      then (Inl (Error ''Message must be between 1 and 2000 characters''), d)
      else if fails rt SendMessage_insert then (Inl PostgrestError, d)
      else let data = new_message rt bookingRequestId senderId trimmed False
           in (Inr data, insert_message data d))"

text \<open>The rows that the filter of markAsRead selects.\<close>

definition unread_from_others :: "uuid \<Rightarrow> uuid \<Rightarrow> message \<Rightarrow> bool" where
  "unread_from_others bookingRequestId userId m \<longleftrightarrow>
     m_booking_request_id m = bookingRequestId \<and> m_sender_id m \<noteq> userId \<and> m_read_at m = None"

definition markAsRead :: "runtime \<Rightarrow> db \<Rightarrow> uuid \<Rightarrow> uuid \<Rightarrow> (error + unit) \<times> db" where
  "markAsRead rt d bookingRequestId userId =
     (if fails rt MarkAsRead_update then (Inl PostgrestError, d)
      else (Inr (),
            d\<lparr>messages :=
                 map (\<lambda>m. if unread_from_others bookingRequestId userId m
                           then m\<lparr>m_read_at := Some (now rt)\<rparr> else m)
                     (messages d)\<rparr>))"

section \<open>generateDeliveryCode and confirmHandoff\<close>

definition chars :: jsstring where
  "chars = js ''ABCDEFGHJKLMNPQRSTUVWXYZ23456789''"

text \<open>
  \<open>code += s[i]\<close>: an index outside the string reads \<open>undefined\<close>, which the
  concatenation turns into the text "undefined".
\<close>

definition char_at :: "jsstring \<Rightarrow> int \<Rightarrow> jsstring" where
  "char_at s i = (if 0 \<le> i \<and> i < int (length s) then [s ! nat i] else js ''undefined'')"

text \<open>The index \<open>Math.floor(Math.random() * chars.length)\<close> for one value of Math.random().\<close>

definition random_index :: "real \<Rightarrow> int" where
  "random_index r = \<lfloor>r * real (length chars)\<rfloor>"

function generate_loop :: "runtime \<Rightarrow> nat \<Rightarrow> jsstring \<Rightarrow> jsstring" where
  "generate_loop rt i code =
     (if i < 10 then generate_loop rt (i + 1) (code @ char_at chars (random_index (random rt i)))
      else code)"
  by pat_completeness auto
termination
  by (relation "measure (\<lambda>(rt, i, code). 10 - i)") auto

declare generate_loop.simps [simp del]

definition generateDeliveryCode :: "runtime \<Rightarrow> jsstring" where
  "generateDeliveryCode rt = generate_loop rt 0 []"

definition systemMessages :: "HandoffStep \<Rightarrow> jsstring option" where
  "systemMessages step =
     (case step of
        sender_confirmed \<Rightarrow> Some (js ''[HANDOFF] sender_confirmed'')
      | handed_over \<Rightarrow> Some (js ''[HANDOFF] handed_over'')
      | delivered \<Rightarrow> Some (js ''[HANDOFF] delivered'')
      | none \<Rightarrow> None)"

definition statusForStep :: "HandoffStep \<Rightarrow> BookingStatus option" where
  "statusForStep step =
     (case step of
        handed_over \<Rightarrow> Some status_handed_over
      | delivered \<Rightarrow> Some status_delivered
      | _ \<Rightarrow> None)"

text \<open>The fields that \<open>updateData\<close> holds for a step, applied to a row.\<close>

definition updateData :: "HandoffStep \<Rightarrow> jsstring option \<Rightarrow> booking_request \<Rightarrow> booking_request" where
  "updateData step deliveryCode b =
     b\<lparr>b_handoff_step := Some step,
       b_status := (case statusForStep step of Some s \<Rightarrow> s | None \<Rightarrow> b_status b),
       b_delivery_code := (if step = handed_over then deliveryCode else b_delivery_code b)\<rparr>"

definition confirmHandoff ::
  "runtime \<Rightarrow> db \<Rightarrow> uuid \<Rightarrow> uuid \<Rightarrow> HandoffStep \<Rightarrow> (error + jsstring option) \<times> db" where
  "confirmHandoff rt d bookingRequestId senderId step =
     (let deliveryCode = (if step = handed_over then Some (generateDeliveryCode rt) else None) in
      if fails rt ConfirmHandoff_update then (Inl PostgrestError, d)
      else let d1 = update_booking bookingRequestId (updateData step deliveryCode) d in
        case systemMessages step of
          None \<Rightarrow> (Inr deliveryCode, d1)
        | Some content \<Rightarrow>
            if fails rt ConfirmHandoff_insert then (Inl PostgrestError, d1)
            else (Inr deliveryCode,
                  insert_message (new_message rt bookingRequestId senderId content True) d1))"

section \<open>validateDeliveryCode\<close>

text \<open>
  \<open>data.delivery_code && code.toUpperCase().trim() === data.delivery_code.toUpperCase().trim()\<close>
\<close>

definition code_matches :: "runtime \<Rightarrow> jsstring \<Rightarrow> jsstring option \<Rightarrow> bool" where
  "code_matches rt code delivery_code \<longleftrightarrow>
     (case delivery_code of
        None \<Rightarrow> False
      | Some stored \<Rightarrow>
          stored \<noteq> [] \<and> trim (toUpperCase rt code) = trim (toUpperCase rt stored))"

definition set_delivered :: "booking_request \<Rightarrow> booking_request" where
  "set_delivered b = b\<lparr>b_handoff_step := Some delivered, b_status := status_delivered\<rparr>"

definition validateDeliveryCode ::
  "runtime \<Rightarrow> db \<Rightarrow> uuid \<Rightarrow> jsstring \<Rightarrow> uuid \<Rightarrow> (error + bool) \<times> db" where
  "validateDeliveryCode rt d bookingRequestId code senderId =
     (case request rt ValidateDeliveryCode_select
             (single (filter (\<lambda>b. b_id b = bookingRequestId) (booking_requests d))) of
        Inl e \<Rightarrow> (Inr False, d)
      | Inr data \<Rightarrow>
          if b_handoff_step data \<noteq> Some handed_over then (Inr False, d)
          else if code_matches rt code (b_delivery_code data) then
            if fails rt ValidateDeliveryCode_update then (Inl PostgrestError, d)
            else let d1 = update_booking bookingRequestId set_delivered d in
              if fails rt ValidateDeliveryCode_insert then (Inl PostgrestError, d1)
              else (Inr True,
                    insert_message
                      (new_message rt bookingRequestId senderId (js ''[HANDOFF] delivered'') True) d1)
          else (Inr False, d))"

section \<open>Ratings\<close>

definition submitRating ::
  "runtime \<Rightarrow> db \<Rightarrow> uuid \<Rightarrow> uuid \<Rightarrow> uuid \<Rightarrow> int \<Rightarrow> jsstring option \<Rightarrow> (error + unit) \<times> db" where
  "submitRating rt d bookingRequestId raterId ratedId score comment =
     (if fails rt SubmitRating_insert then (Inl PostgrestError, d)
      else (Inr (),
            d\<lparr>ratings := ratings d @
                 [\<lparr>r_id = new_id rt, r_booking_request_id = bookingRequestId,
                   r_rater_id = raterId, r_rated_id = ratedId, r_score = score,
                   r_comment = or_else comment None, r_created_at = now rt\<rparr>]\<rparr>))"



section \<open>fetchConversations\<close>

record display_profile =
  first_name :: "jsstring option"
  last_name :: "jsstring option"
  avatar_url :: "jsstring option"

record route =
  departure_city :: jsstring
  destination_city :: jsstring
  departure_date :: jsstring

record ConversationSummary =
  booking_request_id :: uuid
  other_user :: display_profile
  other_user_id :: uuid
  last_message :: "jsstring option"
  last_message_at :: "timestamp option"
  unread_count :: nat
  announcement :: route

text \<open>\<open>const { data } = await ...\<close>: the error of the response is dropped, data is null.\<close>

definition data_of :: "error + 'a option \<Rightarrow> 'a option" where
  "data_of r = (case r of Inl e \<Rightarrow> None | Inr v \<Rightarrow> v)"

text \<open>
  \<open>.order('created_at', { ascending: false }).limit(1)\<close>. The storage leaves the order of
  rows with equal \<open>created_at\<close> open; here the one inserted first comes first.
\<close>

definition latest_first :: "message list \<Rightarrow> message list" where
  "latest_first ms = take 1 (sort_key (\<lambda>m. - m_created_at m) ms)"

text \<open>
  \<open>otherProfile.first_name || otherProfile.username || otherProfile.email?.split('@')[0] || null\<close>
\<close>

definition displayProfile :: "profile option \<Rightarrow> display_profile" where
  "displayProfile otherProfile =
     (case otherProfile of
        Some p \<Rightarrow>
          \<lparr>first_name =
             or_else (or_else (or_else (p_first_name p) (p_username p))
                        (map_option (takeWhile (\<lambda>c. c \<noteq> 0x40)) (p_email p))) None,
           last_name = p_last_name p,
           avatar_url = p_avatar_url p\<rparr>
      | None \<Rightarrow> \<lparr>first_name = None, last_name = None, avatar_url = None\<rparr>)"

text \<open>One iteration of the loop over bookings: None is \<open>continue\<close>, Some is the pushed summary.\<close>

definition conversation_of ::
  "runtime \<Rightarrow> db \<Rightarrow> uuid \<Rightarrow> booking_request \<Rightarrow> ConversationSummary option" where
  "conversation_of rt d userId booking =
     (case request rt (FetchConversations_ann (b_id booking))
             (single (filter (\<lambda>a. a_id a = b_announcement_id booking) (announcements d))) of
        Inl e \<Rightarrow> None
      | Inr ann \<Rightarrow>
          if b_user_id booking \<noteq> userId \<and> a_user_id ann \<noteq> userId then None
          else
            let otherUserId = (if b_user_id booking = userId then a_user_id ann
                               else b_user_id booking);
                otherProfile =
                  data_of (request rt (FetchConversations_profile (b_id booking))
                     (maybeSingle (filter (\<lambda>p. p_id p = otherUserId) (profiles d))));
                lastMsg =
                  data_of (request rt (FetchConversations_lastMsg (b_id booking))
                     (maybeSingle (latest_first
                        (filter (\<lambda>m. m_booking_request_id m = b_id booking) (messages d)))));
                count =
                  data_of (request rt (FetchConversations_count (b_id booking))
                     (Inr (Some (length
                        (filter (unread_from_others (b_id booking) userId) (messages d))))))
            in Some
                 \<lparr>booking_request_id = b_id booking,
                  other_user = displayProfile otherProfile,
                  other_user_id = otherUserId,
                  last_message =
                    (case lastMsg of None \<Rightarrow> None | Some m \<Rightarrow> or_else (Some (m_content m)) None),
                  last_message_at = map_option m_created_at lastMsg,
                  unread_count = (case count of None \<Rightarrow> 0 | Some n \<Rightarrow> n),
                  announcement =
                    \<lparr>departure_city = a_departure_city ann,
                     destination_city = a_destination_city ann,
                     departure_date = a_departure_date ann\<rparr>\<rparr>)"

fun fetch_loop ::
  "runtime \<Rightarrow> db \<Rightarrow> uuid \<Rightarrow> booking_request list \<Rightarrow> ConversationSummary list
   \<Rightarrow> ConversationSummary list" where
  "fetch_loop rt d userId [] conversations = conversations"
| "fetch_loop rt d userId (booking # bookings) conversations =
     (case conversation_of rt d userId booking of
        None \<Rightarrow> fetch_loop rt d userId bookings conversations
      | Some c \<Rightarrow> fetch_loop rt d userId bookings (conversations @ [c]))"

text \<open>The comparator passed to \<open>conversations.sort\<close>.\<close>

definition compare_conversations :: "ConversationSummary \<Rightarrow> ConversationSummary \<Rightarrow> int" where
  "compare_conversations a b =
     (if last_message_at a = None \<and> last_message_at b = None then 0
      else if last_message_at a = None then 1
      else if last_message_at b = None then - 1
      else the (last_message_at b) - the (last_message_at a))"

text \<open>
  \<open>Array.prototype.sort\<close> is stable, and the stable ordering of a list for a comparator
  that is a total preorder is unique; insertion from the right computes it.
\<close>

fun insert_by :: "('a \<Rightarrow> 'a \<Rightarrow> int) \<Rightarrow> 'a \<Rightarrow> 'a list \<Rightarrow> 'a list" where
  "insert_by cmp x [] = [x]"
| "insert_by cmp x (y # ys) = (if cmp x y \<le> 0 then x # y # ys else y # insert_by cmp x ys)"

definition js_sort :: "('a \<Rightarrow> 'a \<Rightarrow> int) \<Rightarrow> 'a list \<Rightarrow> 'a list" where
  "js_sort cmp xs = foldr (insert_by cmp) xs []"

definition fetchConversations ::
  "runtime \<Rightarrow> db \<Rightarrow> uuid \<Rightarrow> error + ConversationSummary list" where
  "fetchConversations rt d userId =
     (case request rt FetchConversations_bookings
             (Inr (filter (\<lambda>b. b_status b \<notin> set [pending, rejected, cancelled])
                          (booking_requests d))) of
        Inl bookingsError \<Rightarrow> Inl bookingsError
      | Inr bookings \<Rightarrow> Inr (js_sort compare_conversations (fetch_loop rt d userId bookings [])))"

section \<open>The handoff button of the chat screen\<close>

text \<open>The state of ChatScreen that handleHandoffAction reads and writes.\<close>

record chat_screen =
  user :: "uuid option"
  bookingRequestId :: uuid
  handoffStep :: HandoffStep
  deliveryCode :: "jsstring option"
  isSender :: bool
  isTraveler :: bool
  handoffLoading :: bool
  alerts :: nat

definition handleHandoffAction :: "runtime \<Rightarrow> chat_screen \<times> db \<Rightarrow> chat_screen \<times> db" where
  "handleHandoffAction rt = (\<lambda>(ui, d).
     case user ui of
       None \<Rightarrow> (ui, d)
     | Some uid \<Rightarrow>
         if handoffLoading ui then (ui, d)
         else if isSender ui \<and> handoffStep ui = none then
           (case confirmHandoff rt d (bookingRequestId ui) uid sender_confirmed of
              (Inr code, d') \<Rightarrow> (ui\<lparr>handoffStep := sender_confirmed, handoffLoading := False\<rparr>, d')
            | (Inl e, d') \<Rightarrow> (ui\<lparr>alerts := alerts ui + 1, handoffLoading := False\<rparr>, d'))
         else if isTraveler ui \<and> handoffStep ui = sender_confirmed then
           (case confirmHandoff rt d (bookingRequestId ui) uid handed_over of
              (Inr code, d') \<Rightarrow>
                (ui\<lparr>handoffStep := handed_over,
                    deliveryCode := (if truthy code then code else deliveryCode ui),
                    handoffLoading := False\<rparr>, d')
            | (Inl e, d') \<Rightarrow> (ui\<lparr>alerts := alerts ui + 1, handoffLoading := False\<rparr>, d'))
         else (ui\<lparr>handoffLoading := False\<rparr>, d))"

section \<open>Two sessions on one booking\<close>

text \<open>
  validateDeliveryCode is three requests, each awaited: the select, the update and the
  insert. Between two of them another session's request can reach the storage. A
  session is at one of its requests or has returned.
\<close>

datatype progress = At_select | At_update | At_insert | Returned "error + bool"

record submission =
  s_runtime :: runtime
  s_bookingRequestId :: uuid
  s_code :: jsstring
  s_senderId :: uuid

definition validate_step :: "submission \<Rightarrow> progress \<times> db \<Rightarrow> progress \<times> db" where
  "validate_step c = (\<lambda>(pc, d).
     case pc of
       At_select \<Rightarrow>
         (case request (s_runtime c) ValidateDeliveryCode_select
                 (single (filter (\<lambda>b. b_id b = s_bookingRequestId c) (booking_requests d))) of
            Inl e \<Rightarrow> (Returned (Inr False), d)
          | Inr data \<Rightarrow>
              if b_handoff_step data \<noteq> Some handed_over then (Returned (Inr False), d)
              else if code_matches (s_runtime c) (s_code c) (b_delivery_code data)
                then (At_update, d)
              else (Returned (Inr False), d))
     | At_update \<Rightarrow>
         if fails (s_runtime c) ValidateDeliveryCode_update
         then (Returned (Inl PostgrestError), d)
         else (At_insert, update_booking (s_bookingRequestId c) set_delivered d)
     | At_insert \<Rightarrow>
         if fails (s_runtime c) ValidateDeliveryCode_insert
         then (Returned (Inl PostgrestError), d)
         else (Returned (Inr True),
               insert_message
                 (new_message (s_runtime c) (s_bookingRequestId c) (s_senderId c)
                    (js ''[HANDOFF] delivered'') True) d)
     | Returned r \<Rightarrow> (Returned r, d))"

text \<open>
  A schedule says which session's next request the storage serves: True the first
  session, False the second.
\<close>

fun interleave ::
  "submission \<Rightarrow> submission \<Rightarrow> bool list \<Rightarrow> progress \<times> progress \<times> db \<Rightarrow> progress \<times> progress \<times> db"
  where
  "interleave c1 c2 [] st = st"
| "interleave c1 c2 (first # schedule) (pc1, pc2, d) =
     (if first
      then (case validate_step c1 (pc1, d) of (pc1', d') \<Rightarrow> interleave c1 c2 schedule (pc1', pc2, d'))
      else (case validate_step c2 (pc2, d) of (pc2', d') \<Rightarrow> interleave c1 c2 schedule (pc1, pc2', d')))"

definition delivered_messages :: "db \<Rightarrow> message list" where
  "delivered_messages d =
     filter (\<lambda>m. m_is_system m \<and> m_content m = js ''[HANDOFF] delivered'') (messages d)"

section \<open>The properties, in the words of the specification\<close>

text \<open>The condition under which a submitted delivery code is accepted.\<close>

definition code_accepted :: "runtime \<Rightarrow> db \<Rightarrow> uuid \<Rightarrow> jsstring \<Rightarrow> bool" where
  "code_accepted rt d bookingId code \<longleftrightarrow>
     \<not> fails rt ValidateDeliveryCode_select \<and>
     (case filter (\<lambda>b. b_id b = bookingId) (booking_requests d) of
        [data] \<Rightarrow>
          b_handoff_step data = Some handed_over \<and>
          (case b_delivery_code data of
             None \<Rightarrow> False
           | Some stored \<Rightarrow>
               stored \<noteq> [] \<and> trim (toUpperCase rt code) = trim (toUpperCase rt stored))
      | _ \<Rightarrow> False)"

text \<open>
  The state after the transition to delivered: the booking's \<open>handoff_step\<close> and \<open>status\<close>
  are delivered and one system message is appended.
\<close>

definition delivered_state :: "runtime \<Rightarrow> db \<Rightarrow> uuid \<Rightarrow> uuid \<Rightarrow> db" where
  "delivered_state rt d bookingId senderId =
     d\<lparr>booking_requests :=
         map (\<lambda>b. if b_id b = bookingId
                   then b\<lparr>b_handoff_step := Some delivered, b_status := status_delivered\<rparr>
                   else b)
             (booking_requests d),
       messages := messages d @
         [\<lparr>m_id = new_id rt, m_booking_request_id = bookingId, m_sender_id = senderId,
           m_content = js ''[HANDOFF] delivered'', m_is_system = True, m_read_at = None,
           m_created_at = now rt\<rparr>]\<rparr>"

text \<open>The order of the handoff steps: each step's immediate successor.\<close>

fun successor :: "HandoffStep \<Rightarrow> HandoffStep option" where
  "successor none = Some sender_confirmed"
| "successor sender_confirmed = Some handed_over"
| "successor handed_over = Some delivered"
| "successor delivered = None"

text \<open>A stored step stays, or moves to the immediate successor.\<close>

definition stays_or_advances :: "HandoffStep option \<Rightarrow> HandoffStep option \<Rightarrow> bool" where
  "stays_or_advances old new \<longleftrightarrow>
     new = old \<or> (case old of None \<Rightarrow> False | Some s \<Rightarrow> successor s \<noteq> None \<and> new = successor s)"

text \<open>
  The bookings that give a user a conversation: the user is the sender, or the owner of
  the booking's announcement, and the status is past approval.
\<close>

definition traveler_of :: "db \<Rightarrow> booking_request \<Rightarrow> uuid list" where
  "traveler_of d b = map a_user_id (filter (\<lambda>a. a_id a = b_announcement_id b) (announcements d))"

definition qualifies :: "db \<Rightarrow> uuid \<Rightarrow> booking_request \<Rightarrow> bool" where
  "qualifies d userId b \<longleftrightarrow>
     b_status b \<noteq> pending \<and> b_status b \<noteq> rejected \<and> b_status b \<noteq> cancelled \<and>
     (b_user_id b = userId \<or> userId \<in> set (traveler_of d b))"

text \<open>Latest message first, conversations without a message last.\<close>

definition newest_first :: "ConversationSummary \<Rightarrow> ConversationSummary \<Rightarrow> bool" where
  "newest_first a b \<longleftrightarrow>
     (case last_message_at b of
        None \<Rightarrow> True
      | Some tb \<Rightarrow> (case last_message_at a of None \<Rightarrow> False | Some ta \<Rightarrow> tb \<le> ta))"

text \<open>The time of the latest message of a booking, if it has a message.\<close>

definition latest_time :: "db \<Rightarrow> uuid \<Rightarrow> timestamp option" where
  "latest_time d i =
     (let ts = map m_created_at (filter (\<lambda>m. m_booking_request_id m = i) (messages d))
      in if ts = [] then None else Some (Max (set ts)))"

text \<open>Every booking refers to exactly one announcement.\<close>

definition announcements_resolve :: "db \<Rightarrow> bool" where
  "announcements_resolve d \<longleftrightarrow>
     list_all (\<lambda>b. length (filter (\<lambda>a. a_id a = b_announcement_id b) (announcements d)) = 1)
       (booking_requests d)"

text \<open>The row that submitRating sends to the storage; an empty comment is stored as null.\<close>

definition rating_row :: "runtime \<Rightarrow> uuid \<Rightarrow> uuid \<Rightarrow> uuid \<Rightarrow> int \<Rightarrow> jsstring option \<Rightarrow> rating" where
  "rating_row rt bookingId raterId ratedId score comment =
     \<lparr>r_id = new_id rt, r_booking_request_id = bookingId, r_rater_id = raterId,
      r_rated_id = ratedId, r_score = score,
      r_comment = (case comment of None \<Rightarrow> None | Some c \<Rightarrow> if c = [] then None else Some c),
      r_created_at = now rt\<rparr>"



text \<open>The stored handoff steps, row by row.\<close>

definition steps_of :: "db \<Rightarrow> HandoffStep option list" where
  "steps_of d = map b_handoff_step (booking_requests d)"

text \<open>
  Between two states of the database, every booking keeps its id and its
  \<open>handoff_step\<close> stays or moves to the immediate successor.
\<close>

definition gated :: "db \<Rightarrow> db \<Rightarrow> bool" where
  "gated d d' \<longleftrightarrow>
     list_all2 (\<lambda>b b'. b_id b' = b_id b \<and> stays_or_advances (b_handoff_step b) (b_handoff_step b'))
       (booking_requests d) (booking_requests d')"

text \<open>Two schedules: the requests of the two sessions overlap, or one session finishes first.\<close>

definition overlapping :: "bool list" where
  "overlapping = [True, False, True, True, False, False]"

definition one_after_the_other :: "bool list" where
  "one_after_the_other = [True, True, True, False, False, False]"

text \<open>The call that a submission stands for.\<close>

definition call :: "submission \<Rightarrow> db \<Rightarrow> (error + bool) \<times> db" where
  "call c d = validateDeliveryCode (s_runtime c) d (s_bookingRequestId c) (s_code c) (s_senderId c)"

text \<open>The requests that decide which conversations are listed, and when, are not rejected.\<close>

definition lookups_succeed :: "runtime \<Rightarrow> bool" where
  "lookups_succeed rt \<longleftrightarrow>
     \<not> fails rt FetchConversations_bookings \<and>
     (\<forall>i. \<not> fails rt (FetchConversations_ann i) \<and> \<not> fails rt (FetchConversations_lastMsg i))"

text \<open>The list that fetchConversations returns, and the fields of it that the inbox shows.\<close>

definition conversations :: "error + ConversationSummary list \<Rightarrow> ConversationSummary list" where
  "conversations r = (case r of Inl e \<Rightarrow> [] | Inr convs \<Rightarrow> convs)"

definition inbox_view ::
  "error + ConversationSummary list \<Rightarrow> (uuid \<times> timestamp option \<times> jsstring option) list" where
  "inbox_view r = map (\<lambda>c. (booking_request_id c, last_message_at c, last_message c)) (conversations r)"

section \<open>Example data\<close>

definition toUpperCase_ascii :: "jsstring \<Rightarrow> jsstring" where
  "toUpperCase_ascii s = map (\<lambda>c. if 0x61 \<le> c \<and> c \<le> 0x7A then c - 0x20 else c) s"

definition rt_ok :: runtime where
  "rt_ok = \<lparr>fails = (\<lambda>s. False), now = 5000, new_id = ''m-new'',
            toUpperCase = toUpperCase_ascii, random = (\<lambda>i. real i / 10)\<rparr>"

definition rt_down :: runtime where
  "rt_down = rt_ok\<lparr>fails := (\<lambda>s. True)\<rparr>"

definition booking1 :: booking_request where
  "booking1 = \<lparr>b_id = ''B1'', b_user_id = ''S'', b_announcement_id = ''A1'',
               b_status = approved, b_handoff_step = Some none, b_delivery_code = None\<rparr>"

definition db_none :: db where
  "db_none = \<lparr>booking_requests = [booking1],
              announcements = [\<lparr>a_id = ''A1'', a_user_id = ''T'', a_departure_city = js ''Paris'',
                                a_destination_city = js ''Dakar'', a_departure_date = js ''2024-06-01''\<rparr>],
              profiles = [], messages = [], ratings = []\<rparr>"

definition booking_handed :: booking_request where
  "booking_handed = \<lparr>b_id = ''B1'', b_user_id = ''S'', b_announcement_id = ''A1'',
     b_status = status_handed_over, b_handoff_step = Some handed_over,
     b_delivery_code = Some (js ''ABCDEFGHJK'')\<rparr>"

definition db_handed :: db where
  "db_handed = db_none\<lparr>booking_requests := [booking_handed]\<rparr>"

definition rt_no_update :: runtime where
  "rt_no_update = rt_ok\<lparr>fails := (\<lambda>s. s = ValidateDeliveryCode_update)\<rparr>"

definition msg1 :: message where
  "msg1 = \<lparr>m_id = ''m1'', m_booking_request_id = ''B1'', m_sender_id = ''S'',
           m_content = js ''Hello'', m_is_system = False, m_read_at = None, m_created_at = 1000\<rparr>"

definition msg2 :: message where
  "msg2 = \<lparr>m_id = ''m2'', m_booking_request_id = ''B1'', m_sender_id = ''T'',
           m_content = js ''Hi'', m_is_system = False, m_read_at = None, m_created_at = 2000\<rparr>"

definition msg3 :: message where
  "msg3 = \<lparr>m_id = ''m3'', m_booking_request_id = ''B2'', m_sender_id = ''S'',
           m_content = js ''Other'', m_is_system = False, m_read_at = None, m_created_at = 3000\<rparr>"

definition db_chat :: db where
  "db_chat = db_none\<lparr>messages := [msg1, msg2, msg3]\<rparr>"




definition booking_delivered :: booking_request where
  "booking_delivered = booking_handed\<lparr>b_status := status_delivered, b_handoff_step := Some delivered\<rparr>"

definition db_delivered :: db where
  "db_delivered = db_none\<lparr>booking_requests := [booking_delivered]\<rparr>"

definition db_confirmed :: db where
  "db_confirmed = db_none\<lparr>booking_requests := [booking1\<lparr>b_handoff_step := Some sender_confirmed\<rparr>]\<rparr>"

definition sender_screen :: chat_screen where
  "sender_screen = \<lparr>user = Some ''S'', bookingRequestId = ''B1'', handoffStep = none,
     deliveryCode = None, isSender = True, isTraveler = False, handoffLoading = False, alerts = 0\<rparr>"

definition traveler_screen :: chat_screen where
  "traveler_screen = \<lparr>user = Some ''T'', bookingRequestId = ''B1'', handoffStep = sender_confirmed,
     deliveryCode = None, isSender = False, isTraveler = True, handoffLoading = False, alerts = 0\<rparr>"

definition submission1 :: submission where
  "submission1 = \<lparr>s_runtime = rt_ok, s_bookingRequestId = ''B1'', s_code = js ''ABCDEFGHJK'',
                    s_senderId = ''S''\<rparr>"

definition submission2 :: submission where
  "submission2 = \<lparr>s_runtime = rt_ok\<lparr>now := 5001, new_id := ''m-new2''\<rparr>,
                    s_bookingRequestId = ''B1'', s_code = js '' abcdefghjk'', s_senderId = ''S''\<rparr>"

definition db_inbox :: db where
  "db_inbox = db_chat
     \<lparr>booking_requests :=
        [booking1,
         booking1\<lparr>b_id := ''B2'', b_user_id := ''U'', b_announcement_id := ''A2'',
                  b_status := status_handed_over\<rparr>,
         booking1\<lparr>b_id := ''B3''\<rparr>,
         booking1\<lparr>b_id := ''B4'', b_status := pending\<rparr>,
         booking1\<lparr>b_id := ''B5'', b_user_id := ''U''\<rparr>],
      announcements :=
        [\<lparr>a_id = ''A1'', a_user_id = ''T'', a_departure_city = js ''Paris'',
          a_destination_city = js ''Dakar'', a_departure_date = js ''2024-06-01''\<rparr>,
         \<lparr>a_id = ''A2'', a_user_id = ''S'', a_departure_city = js ''Lyon'',
          a_destination_city = js ''Abidjan'', a_departure_date = js ''2024-07-01''\<rparr>]\<rparr>"

section \<open>Claims\<close>

subsection \<open>fetchHandoffStep never raises\<close>

lemma fetchHandoffStep_total: "\<exists>step. fetchHandoffStep rt d i = Inr step"
  by (simp add: fetchHandoffStep_def split: sum.split)

lemma fetchHandoffStep_null_rows:
  assumes "\<forall>b \<in> set (booking_requests d). b_id b = i \<longrightarrow> b_handoff_step b = None"
  shows "fetchHandoffStep rt d i = Inr none"
proof (cases "request rt FetchHandoffStep_select
                (single (filter (\<lambda>b. b_id b = i) (booking_requests d)))")
  case (Inl e)
  then show ?thesis by (simp add: fetchHandoffStep_def)
next
  case (Inr data)
  then have "single (filter (\<lambda>b. b_id b = i) (booking_requests d)) = Inr data"
    by (simp add: request_def split: if_splits)
  then have "filter (\<lambda>b. b_id b = i) (booking_requests d) = [data]"
    by (simp add: single_def split: list.splits)
  then have "data \<in> set (filter (\<lambda>b. b_id b = i) (booking_requests d))"
    by simp
  then have "b_handoff_step data = None"
    using assms by simp
  with Inr show ?thesis by (simp add: fetchHandoffStep_def)
qed

text \<open>
  C10. fetchHandoffStep always returns a step and never an error. It returns \<open>none\<close>
  when the lookup request fails, when no booking row has the given id, and when the
  stored \<open>handoff_step\<close> is null. A table without the booking and a table where the
  booking is at \<open>none\<close> give the same answer, so the caller cannot tell them apart.
\<close>

theorem fetchHandoffStep_never_raises:
  "(\<exists>step. fetchHandoffStep rt d i = Inr step)
   \<and> (fails rt FetchHandoffStep_select \<longrightarrow> fetchHandoffStep rt d i = Inr none)
   \<and> ((\<forall>b \<in> set (booking_requests d). b_id b \<noteq> i) \<longrightarrow> fetchHandoffStep rt d i = Inr none)
   \<and> ((\<forall>b \<in> set (booking_requests d). b_id b = i \<longrightarrow> b_handoff_step b = None)
        \<longrightarrow> fetchHandoffStep rt d i = Inr none)
   \<and> fetchHandoffStep rt (d\<lparr>booking_requests := []\<rparr>) i
       = fetchHandoffStep rt (d\<lparr>booking_requests := [b\<lparr>b_id := i, b_handoff_step := Some none\<rparr>]\<rparr>) i"
proof (intro conjI impI)
  show "\<exists>step. fetchHandoffStep rt d i = Inr step"
    by (rule fetchHandoffStep_total)
  show "fetchHandoffStep rt d i = Inr none" if "fails rt FetchHandoffStep_select"
    using that by (simp add: fetchHandoffStep_def request_def)
  show "fetchHandoffStep rt d i = Inr none" if "\<forall>b \<in> set (booking_requests d). b_id b \<noteq> i"
    using that by (intro fetchHandoffStep_null_rows) simp
  show "fetchHandoffStep rt d i = Inr none"
    if "\<forall>b \<in> set (booking_requests d). b_id b = i \<longrightarrow> b_handoff_step b = None"
    using that by (rule fetchHandoffStep_null_rows)
  show "fetchHandoffStep rt (d\<lparr>booking_requests := []\<rparr>) i
       = fetchHandoffStep rt (d\<lparr>booking_requests := [b\<lparr>b_id := i, b_handoff_step := Some none\<rparr>]\<rparr>) i"
    by (simp add: fetchHandoffStep_def request_def single_def)
qed

theorem fetchHandoffStep_never_raises_witness:
  "fails rt_down FetchHandoffStep_select
   \<and> fetchHandoffStep rt_down db_none ''B1'' = Inr none
   \<and> fetchHandoffStep rt_ok db_none ''B2'' = Inr none
   \<and> fetchHandoffStep rt_ok (db_none\<lparr>booking_requests := [booking1\<lparr>b_handoff_step := None\<rparr>]\<rparr>) ''B1''
       = Inr none"
  using fetchHandoffStep_never_raises [of rt_down db_none "''B1''"]
        fetchHandoffStep_never_raises [of rt_ok db_none "''B2''"]
        fetchHandoffStep_never_raises
          [of rt_ok "db_none\<lparr>booking_requests := [booking1\<lparr>b_handoff_step := None\<rparr>]\<rparr>" "''B1''"]
  by (simp add: rt_down_def rt_ok_def db_none_def booking1_def)

subsection \<open>validateDeliveryCode fails closed\<close>

lemma validate_rejects:
  "\<not> code_accepted rt d i code \<Longrightarrow> validateDeliveryCode rt d i code s = (Inr False, d)"
  by (auto simp: code_accepted_def validateDeliveryCode_def request_def single_def
        code_matches_def
      split: list.splits option.splits sum.splits if_splits)

lemma validate_accepts:
  "code_accepted rt d i code \<Longrightarrow>
   validateDeliveryCode rt d i code s =
     (if fails rt ValidateDeliveryCode_update then (Inl PostgrestError, d)
      else if fails rt ValidateDeliveryCode_insert
        then (Inl PostgrestError, update_booking i set_delivered d)
      else (Inr True, delivered_state rt d i s))"
  by (auto simp: code_accepted_def validateDeliveryCode_def request_def single_def
        code_matches_def delivered_state_def update_booking_def set_delivered_def
        insert_message_def new_message_def Let_def
      split: list.splits option.splits sum.splits if_splits)

text \<open>
  C1. Unless the lookup returns the booking, its \<open>handoff_step\<close> is \<open>handed_over\<close>, its
  \<open>delivery_code\<close> is set (not null, not empty) and the submitted code equals the stored
  one after uppercasing and trimming both, validateDeliveryCode returns false and the
  database is unchanged. When all hold and the storage accepts the two writes, it returns
  true, the booking's \<open>handoff_step\<close> and \<open>status\<close> are delivered, and exactly one system
  message '[HANDOFF] delivered' is appended. When all hold and the storage rejects the
  update, the call throws and nothing is changed.
\<close>

theorem validateDeliveryCode_fail_closed:
  "(\<not> code_accepted rt d i code \<longrightarrow> validateDeliveryCode rt d i code s = (Inr False, d))
   \<and> (code_accepted rt d i code \<and> \<not> fails rt ValidateDeliveryCode_update
        \<and> \<not> fails rt ValidateDeliveryCode_insert
      \<longrightarrow> validateDeliveryCode rt d i code s = (Inr True, delivered_state rt d i s))
   \<and> (code_accepted rt d i code \<and> fails rt ValidateDeliveryCode_update
      \<longrightarrow> validateDeliveryCode rt d i code s = (Inl PostgrestError, d))"
  using validate_rejects [of rt d i code s] validate_accepts [of rt d i code s]
  by simp

lemmas example_defs =
  rt_ok_def rt_down_def rt_no_update_def db_none_def booking1_def db_handed_def
  booking_handed_def js_def trim_def isWhiteSpace_def toUpperCase_ascii_def

theorem validateDeliveryCode_fail_closed_witness:
  "code_accepted rt_ok db_handed ''B1'' (js ''abcdefghjk '')
   \<and> validateDeliveryCode rt_ok db_handed ''B1'' (js ''abcdefghjk '') ''S''
       = (Inr True, delivered_state rt_ok db_handed ''B1'' ''S'')
   \<and> \<not> code_accepted rt_ok db_handed ''B1'' (js ''ABCDEFGHJJ'')
   \<and> validateDeliveryCode rt_ok db_handed ''B1'' (js ''ABCDEFGHJJ'') ''S'' = (Inr False, db_handed)
   \<and> \<not> code_accepted rt_ok db_none ''B1'' (js ''ABCDEFGHJK'')
   \<and> validateDeliveryCode rt_ok db_none ''B1'' (js ''ABCDEFGHJK'') ''S'' = (Inr False, db_none)
   \<and> \<not> code_accepted rt_ok db_handed ''B2'' (js ''ABCDEFGHJK'')
   \<and> validateDeliveryCode rt_ok db_handed ''B2'' (js ''ABCDEFGHJK'') ''S'' = (Inr False, db_handed)
   \<and> code_accepted rt_no_update db_handed ''B1'' (js ''ABCDEFGHJK'')
   \<and> fails rt_no_update ValidateDeliveryCode_update
   \<and> validateDeliveryCode rt_no_update db_handed ''B1'' (js ''ABCDEFGHJK'') ''S''
       = (Inl PostgrestError, db_handed)"
  using validateDeliveryCode_fail_closed [of rt_ok db_handed "''B1''" "js ''abcdefghjk ''" "''S''"]
        validateDeliveryCode_fail_closed [of rt_ok db_handed "''B1''" "js ''ABCDEFGHJJ''" "''S''"]
        validateDeliveryCode_fail_closed [of rt_ok db_none "''B1''" "js ''ABCDEFGHJK''" "''S''"]
        validateDeliveryCode_fail_closed [of rt_ok db_handed "''B2''" "js ''ABCDEFGHJK''" "''S''"]
        validateDeliveryCode_fail_closed [of rt_no_update db_handed "''B1''" "js ''ABCDEFGHJK''" "''S''"]
  by (simp add: code_accepted_def example_defs)

subsection \<open>sendMessage validates the trimmed content\<close>

text \<open>
  C7. sendMessage trims the content and throws its validation error exactly when the
  trimmed length is 0 or greater than 2000, and then inserts nothing. Otherwise, when
  the storage accepts the insert, exactly one row is appended; it holds the trimmed
  content, is not a system message and is unread, and no other row is changed. A
  trimmed length of exactly 2000 passes, 2001 fails, and all-whitespace content fails.
\<close>

theorem sendMessage_validation:
  "(fst (sendMessage rt d i s content) = Inl (Error ''Message must be between 1 and 2000 characters'')
      \<longleftrightarrow> length (trim content) = 0 \<or> 2000 < length (trim content))
   \<and> (length (trim content) = 0 \<or> 2000 < length (trim content)
        \<longrightarrow> snd (sendMessage rt d i s content) = d)
   \<and> (0 < length (trim content) \<and> length (trim content) \<le> 2000 \<and> \<not> fails rt SendMessage_insert
        \<longrightarrow> sendMessage rt d i s content =
             (Inr \<lparr>m_id = new_id rt, m_booking_request_id = i, m_sender_id = s,
                   m_content = trim content, m_is_system = False, m_read_at = None,
                   m_created_at = now rt\<rparr>,
              d\<lparr>messages := messages d @
                  [\<lparr>m_id = new_id rt, m_booking_request_id = i, m_sender_id = s,
                    m_content = trim content, m_is_system = False, m_read_at = None,
                    m_created_at = now rt\<rparr>]\<rparr>))"
  by (auto simp: sendMessage_def Let_def new_message_def insert_message_def)

theorem sendMessage_validation_witness:
  "length (trim (replicate 2000 0x61)) = 2000
   \<and> sendMessage rt_ok db_none ''B1'' ''S'' (replicate 2000 0x61) =
       (Inr \<lparr>m_id = ''m-new'', m_booking_request_id = ''B1'', m_sender_id = ''S'',
             m_content = replicate 2000 0x61, m_is_system = False, m_read_at = None,
             m_created_at = 5000\<rparr>,
        db_none\<lparr>messages :=
          [\<lparr>m_id = ''m-new'', m_booking_request_id = ''B1'', m_sender_id = ''S'',
            m_content = replicate 2000 0x61, m_is_system = False, m_read_at = None,
            m_created_at = 5000\<rparr>]\<rparr>)
   \<and> length (trim (replicate 2001 0x61)) = 2001
   \<and> sendMessage rt_ok db_none ''B1'' ''S'' (replicate 2001 0x61) =
       (Inl (Error ''Message must be between 1 and 2000 characters''), db_none)
   \<and> length (trim (replicate 3 0x20)) = 0
   \<and> sendMessage rt_ok db_none ''B1'' ''S'' (replicate 3 0x20) =
       (Inl (Error ''Message must be between 1 and 2000 characters''), db_none)
   \<and> trim (js ''  Hello  '') = js ''Hello''
   \<and> m_content (last (messages (snd (sendMessage rt_ok db_none ''B1'' ''S'' (js ''  Hello  '')))))
       = js ''Hello''"
  using sendMessage_validation [of rt_ok db_none "''B1''" "''S''" "replicate 2000 0x61"]
        sendMessage_validation [of rt_ok db_none "''B1''" "''S''" "replicate 2001 0x61"]
        sendMessage_validation [of rt_ok db_none "''B1''" "''S''" "replicate 3 0x20"]
        sendMessage_validation [of rt_ok db_none "''B1''" "''S''" "js ''  Hello  ''"]
  by (simp add: example_defs prod_eq_iff)

subsection \<open>markAsRead\<close>

lemma markAsRead_again:
  "(\<lambda>m. if unread_from_others i u m then m\<lparr>m_read_at := Some t2\<rparr> else m) \<circ>
   (\<lambda>m. if unread_from_others i u m then m\<lparr>m_read_at := Some t\<rparr> else m)
   = (\<lambda>m. if unread_from_others i u m then m\<lparr>m_read_at := Some t\<rparr> else m)"
  by (auto simp: fun_eq_iff unread_from_others_def)

lemma markAsRead_nothing:
  "\<forall>m \<in> set ms. \<not> unread_from_others i u m \<Longrightarrow>
   map (\<lambda>m. if unread_from_others i u m then m\<lparr>m_read_at := Some t\<rparr> else m) ms = ms"
  by (induction ms) auto

text \<open>
  C6. When the storage accepts the update, markAsRead sets \<open>read_at\<close> to the current time
  on exactly the messages of the conversation that another user sent and that are still
  unread, and leaves every other row and table as it was. A second call right after,
  whatever the clock shows then, changes nothing. With nothing to mark the call succeeds
  and the database is unchanged.
\<close>

theorem markAsRead_marks_others_once:
  "(\<not> fails rt MarkAsRead_update \<longrightarrow>
      markAsRead rt d i u =
        (Inr (),
         d\<lparr>messages :=
             map (\<lambda>m. if m_booking_request_id m = i \<and> m_sender_id m \<noteq> u \<and> m_read_at m = None
                       then m\<lparr>m_read_at := Some (now rt)\<rparr> else m)
                 (messages d)\<rparr>))
   \<and> (\<not> fails rt MarkAsRead_update \<and> \<not> fails rt2 MarkAsRead_update \<longrightarrow>
        markAsRead rt2 (snd (markAsRead rt d i u)) i u = (Inr (), snd (markAsRead rt d i u)))
   \<and> (\<not> fails rt MarkAsRead_update
        \<and> (\<forall>m \<in> set (messages d).
              \<not> (m_booking_request_id m = i \<and> m_sender_id m \<noteq> u \<and> m_read_at m = None))
      \<longrightarrow> markAsRead rt d i u = (Inr (), d))"
proof (intro conjI impI)
  assume ok: "\<not> fails rt MarkAsRead_update"
  then show "markAsRead rt d i u =
        (Inr (),
         d\<lparr>messages :=
             map (\<lambda>m. if m_booking_request_id m = i \<and> m_sender_id m \<noteq> u \<and> m_read_at m = None
                       then m\<lparr>m_read_at := Some (now rt)\<rparr> else m)
                 (messages d)\<rparr>)"
    by (simp add: markAsRead_def unread_from_others_def)
next
  assume "\<not> fails rt MarkAsRead_update \<and> \<not> fails rt2 MarkAsRead_update"
  then show "markAsRead rt2 (snd (markAsRead rt d i u)) i u = (Inr (), snd (markAsRead rt d i u))"
    by (simp add: markAsRead_def markAsRead_again)
next
  assume a: "\<not> fails rt MarkAsRead_update
        \<and> (\<forall>m \<in> set (messages d).
              \<not> (m_booking_request_id m = i \<and> m_sender_id m \<noteq> u \<and> m_read_at m = None))"
  then have "\<forall>m \<in> set (messages d). \<not> unread_from_others i u m"
    by (simp add: unread_from_others_def)
  then have "map (\<lambda>m. if unread_from_others i u m then m\<lparr>m_read_at := Some (now rt)\<rparr> else m)
               (messages d) = messages d"
    by (rule markAsRead_nothing)
  with a show "markAsRead rt d i u = (Inr (), d)"
    by (simp add: markAsRead_def)
qed

theorem markAsRead_marks_others_once_witness:
  "\<not> fails rt_ok MarkAsRead_update
   \<and> markAsRead rt_ok db_chat ''B1'' ''T''
       = (Inr (), db_chat\<lparr>messages := [msg1\<lparr>m_read_at := Some 5000\<rparr>, msg2, msg3]\<rparr>)
   \<and> markAsRead (rt_ok\<lparr>now := 6000\<rparr>)
        (db_chat\<lparr>messages := [msg1\<lparr>m_read_at := Some 5000\<rparr>, msg2, msg3]\<rparr>) ''B1'' ''T''
       = (Inr (), db_chat\<lparr>messages := [msg1\<lparr>m_read_at := Some 5000\<rparr>, msg2, msg3]\<rparr>)
   \<and> markAsRead rt_ok db_none ''B1'' ''T'' = (Inr (), db_none)"
proof -
  have ok: "\<not> fails rt_ok MarkAsRead_update" "\<not> fails (rt_ok\<lparr>now := 6000\<rparr>) MarkAsRead_update"
    by (simp_all add: rt_ok_def)
  have first: "markAsRead rt_ok db_chat ''B1'' ''T''
       = (Inr (), db_chat\<lparr>messages := [msg1\<lparr>m_read_at := Some 5000\<rparr>, msg2, msg3]\<rparr>)"
    using ok markAsRead_marks_others_once [of rt_ok db_chat "''B1''" "''T''" rt_ok]
    by (simp add: rt_ok_def db_none_def db_chat_def msg1_def msg2_def msg3_def)
  have again: "markAsRead (rt_ok\<lparr>now := 6000\<rparr>) (snd (markAsRead rt_ok db_chat ''B1'' ''T'')) ''B1'' ''T''
       = (Inr (), snd (markAsRead rt_ok db_chat ''B1'' ''T''))"
    using ok markAsRead_marks_others_once [of rt_ok db_chat "''B1''" "''T''" "rt_ok\<lparr>now := 6000\<rparr>"]
    by blast
  have unchanged: "markAsRead rt_ok db_none ''B1'' ''T'' = (Inr (), db_none)"
    using ok markAsRead_marks_others_once [of rt_ok db_none "''B1''" "''T''" rt_ok]
    by (simp add: db_none_def)
  from again have again':
    "markAsRead (rt_ok\<lparr>now := 6000\<rparr>)
        (db_chat\<lparr>messages := [msg1\<lparr>m_read_at := Some 5000\<rparr>, msg2, msg3]\<rparr>) ''B1'' ''T''
       = (Inr (), db_chat\<lparr>messages := [msg1\<lparr>m_read_at := Some 5000\<rparr>, msg2, msg3]\<rparr>)"
    by (simp add: first)
  show ?thesis
    by (intro conjI ok(1) first again' unchanged)
qed

subsection \<open>submitRating does not check the score\<close>

text \<open>
  C4, as stated, fails: submitRating has no check of the score. With the score 7 and a
  storage that accepts the insert, the call succeeds and the row is stored.
\<close>

theorem submitRating_accepts_any_score_counterexample:
  "submitRating rt_ok db_none ''B1'' ''S'' ''T'' 7 None
     = (Inr (), db_none\<lparr>ratings := [rating_row rt_ok ''B1'' ''S'' ''T'' 7 None]\<rparr>)
   \<and> r_score (rating_row rt_ok ''B1'' ''S'' ''T'' 7 None) = 7"
  by (simp add: submitRating_def rating_row_def or_else_def truthy_def rt_ok_def db_none_def)

text \<open>
  C4, amended. submitRating passes every score to the storage as it is. It fails only
  when the storage rejects the insert, with the storage's error and with no row
  inserted; otherwise it appends exactly one rating row that carries the given score.
\<close>

theorem submitRating_no_score_check:
  "(fails rt SubmitRating_insert \<longrightarrow>
      submitRating rt d b rater rated score comment = (Inl PostgrestError, d))
   \<and> (\<not> fails rt SubmitRating_insert \<longrightarrow>
      submitRating rt d b rater rated score comment
        = (Inr (), d\<lparr>ratings := ratings d @ [rating_row rt b rater rated score comment]\<rparr>)
      \<and> r_score (rating_row rt b rater rated score comment) = score)"
  by (auto simp: submitRating_def rating_row_def or_else_def truthy_def split: option.splits)

theorem submitRating_no_score_check_witness:
  "fails rt_down SubmitRating_insert
   \<and> submitRating rt_down db_none ''B1'' ''S'' ''T'' 0 None = (Inl PostgrestError, db_none)
   \<and> \<not> fails rt_ok SubmitRating_insert
   \<and> submitRating rt_ok db_none ''B1'' ''S'' ''T'' 4 (Some (js ''Great''))
       = (Inr (), db_none\<lparr>ratings := [rating_row rt_ok ''B1'' ''S'' ''T'' 4 (Some (js ''Great''))]\<rparr>)
   \<and> submitRating rt_ok db_none ''B1'' ''S'' ''T'' (- 3) None
       = (Inr (), db_none\<lparr>ratings := [rating_row rt_ok ''B1'' ''S'' ''T'' (- 3) None]\<rparr>)"
  using submitRating_no_score_check [of rt_down db_none "''B1''" "''S''" "''T''" 0 None]
        submitRating_no_score_check [of rt_ok db_none "''B1''" "''S''" "''T''" 4 "Some (js ''Great'')"]
        submitRating_no_score_check [of rt_ok db_none "''B1''" "''S''" "''T''" "- 3" None]
  by (simp add: rt_ok_def rt_down_def db_none_def)

subsection \<open>The delivery code\<close>

lemma length_chars: "length chars = 32"
  by (simp add: chars_def js_def)

lemma distinct_chars: "distinct chars"
  by (simp add: chars_def js_def)

lemma chars_unambiguous: "set chars \<inter> set (js ''0O1I'') = {}"
  by (simp add: chars_def js_def)

lemma random_index_interval:
  "random_index r = int k \<longleftrightarrow> real k / 32 \<le> r \<and> r < (real k + 1) / 32"
proof -
  have "random_index r = int k \<longleftrightarrow> real k \<le> r * 32 \<and> r * 32 < real k + 1"
    by (simp add: random_index_def length_chars floor_eq_iff)
  also have "\<dots> \<longleftrightarrow> real k / 32 \<le> r \<and> r < (real k + 1) / 32"
    by (simp add: field_simps)
  finally show ?thesis .
qed

lemma random_index_range:
  assumes "0 \<le> r" "r < 1"
  shows "0 \<le> random_index r \<and> random_index r < 32"
proof -
  from assms have "0 \<le> r * 32" "r * 32 < 32" by simp_all
  then show ?thesis
    by (simp add: random_index_def length_chars floor_less_iff)
qed

lemma generate_loop_unroll:
  "i \<le> 10 \<Longrightarrow>
   generate_loop rt i code =
     code @ concat (map (\<lambda>k. char_at chars (random_index (random rt k))) [i..<10])"
proof (induction rt i code rule: generate_loop.induct)
  case (1 rt i code)
  show ?case
  proof (cases "i < 10")
    case True
    then have "generate_loop rt i code =
        generate_loop rt (i + 1) (code @ char_at chars (random_index (random rt i)))"
      by (subst generate_loop.simps) simp
    also have "\<dots> = (code @ char_at chars (random_index (random rt i))) @
        concat (map (\<lambda>k. char_at chars (random_index (random rt k))) [i + 1..<10])"
      using True by (intro "1.IH") simp_all
    also have "\<dots> = code @ concat (map (\<lambda>k. char_at chars (random_index (random rt k))) [i..<10])"
      using True by (simp add: upt_conv_Cons)
    finally show ?thesis .
  next
    case False
    with "1.prems" have "i = 10" by simp
    then show ?thesis by (subst generate_loop.simps) simp
  qed
qed

lemma generateDeliveryCode_draws:
  assumes "\<forall>k<10. 0 \<le> random rt k \<and> random rt k < 1"
  shows "generateDeliveryCode rt = map (\<lambda>k. chars ! nat (random_index (random rt k))) [0..<10]"
proof -
  have one: "char_at chars (random_index (random rt k)) = [chars ! nat (random_index (random rt k))]"
    if "k < 10" for k
    using that assms random_index_range [of "random rt k"]
    by (simp add: char_at_def length_chars)
  have "generate_loop rt 0 [] =
      [] @ concat (map (\<lambda>k. char_at chars (random_index (random rt k))) [0..<10])"
    by (rule generate_loop_unroll) simp
  then have "generateDeliveryCode rt = concat (map (\<lambda>k. char_at chars (random_index (random rt k))) [0..<10])"
    by (simp only: generateDeliveryCode_def append_Nil)
  also have "\<dots> = concat (map (\<lambda>k. [chars ! nat (random_index (random rt k))]) [0..<10])"
    using one by (intro arg_cong [where f = concat] map_cong) simp_all
  also have "\<dots> = map (\<lambda>k. chars ! nat (random_index (random rt k))) [0..<10]"
    by (rule concat_map_singleton)
  finally show ?thesis .
qed

lemma confirmHandoff_handed_over:
  assumes "\<not> fails rt ConfirmHandoff_update \<and> \<not> fails rt ConfirmHandoff_insert"
  shows "confirmHandoff rt d i s handed_over =
     (Inr (Some (generateDeliveryCode rt)),
      insert_message (new_message rt i s (js ''[HANDOFF] handed_over'') True)
        (update_booking i (updateData handed_over (Some (generateDeliveryCode rt))) d))"
  using assms by (simp add: confirmHandoff_def systemMessages_def Let_def)

lemma booking_requests_after_update:
  "booking_requests (insert_message m (update_booking i f d)) =
     map (\<lambda>b. if b_id b = i then f b else b) (booking_requests d)"
  by (simp add: insert_message_def update_booking_def)

lemma confirmHandoff_stores_code:
  assumes ok: "\<not> fails rt ConfirmHandoff_update \<and> \<not> fails rt ConfirmHandoff_insert"
    and mem: "b \<in> set (booking_requests (snd (confirmHandoff rt d i s handed_over)))"
    and "b_id b = i"
  shows "b_delivery_code b = Some (generateDeliveryCode rt)"
proof -
  from mem obtain b0 where b0: "b0 \<in> set (booking_requests d)"
    "b = (if b_id b0 = i then updateData handed_over (Some (generateDeliveryCode rt)) b0 else b0)"
    by (auto simp only: confirmHandoff_handed_over [OF ok] snd_conv booking_requests_after_update
          set_map)
  show ?thesis
  proof (cases "b_id b0 = i")
    case True
    with b0 show ?thesis by (simp add: updateData_def)
  next
    case False
    with b0 \<open>b_id b = i\<close> show ?thesis by simp
  qed
qed

text \<open>
  C3, as stated, fails: the alphabet of generateDeliveryCode has 32 symbols, not 33
  (the 26 letters and 10 digits without 0, O, 1 and I).
\<close>

theorem delivery_code_alphabet_counterexample:
  "card (set chars) = 32 \<and> card (set chars) \<noteq> 33"
  using distinct_card [OF distinct_chars] by (simp add: length_chars)

text \<open>
  C3, amended. The alphabet has 32 distinct symbols and contains none of 0, O, 1, I.
  The symbol with index k is drawn exactly when Math.random() falls in the interval from
  k/32 to (k+1)/32, so all symbols have intervals of the same width. For values of
  Math.random() in the half-open unit interval, the code has exactly 10 characters, all
  from the alphabet, the k-th one chosen by the k-th value. Every call of confirmHandoff
  with the step \<open>handed_over\<close> that the storage accepts returns the code generated from
  that call's own random values and stores it in the booking, whatever was stored before.
\<close>

theorem generateDeliveryCode_fresh_code:
  "length chars = 32 \<and> distinct chars \<and> set chars \<inter> set (js ''0O1I'') = {}
   \<and> (\<forall>k r. random_index r = int k \<longleftrightarrow> real k / 32 \<le> r \<and> r < (real k + 1) / 32)
   \<and> ((\<forall>k<10. 0 \<le> random rt k \<and> random rt k < 1) \<longrightarrow>
        length (generateDeliveryCode rt) = 10
        \<and> set (generateDeliveryCode rt) \<subseteq> set chars
        \<and> (\<forall>k<10. generateDeliveryCode rt ! k = chars ! nat (random_index (random rt k))))
   \<and> (\<not> fails rt ConfirmHandoff_update \<and> \<not> fails rt ConfirmHandoff_insert \<longrightarrow>
        fst (confirmHandoff rt d i s handed_over) = Inr (Some (generateDeliveryCode rt))
        \<and> (\<forall>b \<in> set (booking_requests (snd (confirmHandoff rt d i s handed_over))).
              b_id b = i \<longrightarrow> b_delivery_code b = Some (generateDeliveryCode rt)))"
proof (intro conjI allI impI ballI)
  show "length chars = 32" by (rule length_chars)
  show "distinct chars" by (rule distinct_chars)
  show "set chars \<inter> set (js ''0O1I'') = {}" by (rule chars_unambiguous)
  show "random_index r = int k \<longleftrightarrow> real k / 32 \<le> r \<and> r < (real k + 1) / 32" for k r
    by (rule random_index_interval)
next
  assume draws: "\<forall>k<10. 0 \<le> random rt k \<and> random rt k < 1"
  then have code: "generateDeliveryCode rt = map (\<lambda>k. chars ! nat (random_index (random rt k))) [0..<10]"
    by (rule generateDeliveryCode_draws)
  show "length (generateDeliveryCode rt) = 10"
    by (simp add: code)
  show "generateDeliveryCode rt ! k = chars ! nat (random_index (random rt k))" if "k < 10" for k
    using that by (simp add: code)
  show "set (generateDeliveryCode rt) \<subseteq> set chars"
  proof
    fix c assume "c \<in> set (generateDeliveryCode rt)"
    then obtain k where k: "k < 10" "c = chars ! nat (random_index (random rt k))"
      by (auto simp: code)
    with draws random_index_range [of "random rt k"]
    have "nat (random_index (random rt k)) < length chars"
      by (auto simp: length_chars)
    with k show "c \<in> set chars" by simp
  qed
next
  assume ok: "\<not> fails rt ConfirmHandoff_update \<and> \<not> fails rt ConfirmHandoff_insert"
  then show "fst (confirmHandoff rt d i s handed_over) = Inr (Some (generateDeliveryCode rt))"
    by (simp add: confirmHandoff_handed_over)
  show "b_delivery_code b = Some (generateDeliveryCode rt)"
    if "b \<in> set (booking_requests (snd (confirmHandoff rt d i s handed_over)))" "b_id b = i" for b
    using ok that by (rule confirmHandoff_stores_code)
qed

lemma chars_index: "chars ! 6 = 0x47"
  by (simp add: chars_def js_def)

theorem generateDeliveryCode_fresh_code_witness:
  "random_index (1 / 2) = 16
   \<and> length (generateDeliveryCode rt_ok) = 10
   \<and> generateDeliveryCode rt_ok ! 2 = 0x47
   \<and> fst (confirmHandoff rt_ok db_handed ''B1'' ''T'' handed_over)
       = Inr (Some (generateDeliveryCode rt_ok))
   \<and> map b_delivery_code
         (booking_requests (snd (confirmHandoff rt_ok db_handed ''B1'' ''T'' handed_over)))
       = [Some (generateDeliveryCode rt_ok)]"
proof -
  have draws: "\<forall>k<10. 0 \<le> random rt_ok k \<and> random rt_ok k < 1"
    by (simp add: rt_ok_def)
  have ok: "\<not> fails rt_ok ConfirmHandoff_update \<and> \<not> fails rt_ok ConfirmHandoff_insert"
    by (simp add: rt_ok_def)
  note claim = generateDeliveryCode_fresh_code [of rt_ok db_handed "''B1''" "''T''"]
  note intervals = claim [THEN conjunct2, THEN conjunct2, THEN conjunct2, THEN conjunct1, rule_format]
  note code = claim [THEN conjunct2, THEN conjunct2, THEN conjunct2, THEN conjunct2,
                     THEN conjunct1, THEN mp, OF draws]
  note handoff = claim [THEN conjunct2, THEN conjunct2, THEN conjunct2, THEN conjunct2,
                        THEN conjunct2, THEN mp, OF ok]
  have idx: "random_index (1 / 2) = 16"
    using intervals [of "1 / 2" 16] by simp
  have idx2: "random_index (random rt_ok 2) = 6"
    using intervals [of "random rt_ok 2" 6] by (simp add: rt_ok_def)
  have len: "length (generateDeliveryCode rt_ok) = 10"
    using code by (rule conjunct1)
  have "generateDeliveryCode rt_ok ! 2 = chars ! nat (random_index (random rt_ok 2))"
    using code [THEN conjunct2, THEN conjunct2] by simp
  then have second: "generateDeliveryCode rt_ok ! 2 = 0x47"
    by (simp add: idx2 chars_index)
  have returned: "fst (confirmHandoff rt_ok db_handed ''B1'' ''T'' handed_over)
       = Inr (Some (generateDeliveryCode rt_ok))"
    using handoff by (rule conjunct1)
  have stored: "map b_delivery_code
         (booking_requests (snd (confirmHandoff rt_ok db_handed ''B1'' ''T'' handed_over)))
       = [Some (generateDeliveryCode rt_ok)]"
    by (simp add: confirmHandoff_handed_over [OF ok] booking_requests_after_update
          db_handed_def db_none_def booking_handed_def updateData_def)
  show ?thesis
    by (intro conjI idx len second returned stored)
qed

subsection \<open>Where the handoff transitions are gated\<close>

lemma confirmHandoff_bookings:
  "booking_requests (snd (confirmHandoff rt d i s step)) = booking_requests d
   \<or> (\<exists>c. booking_requests (snd (confirmHandoff rt d i s step)) =
          map (\<lambda>b. if b_id b = i then updateData step c b else b) (booking_requests d))"
  by (auto simp: confirmHandoff_def Let_def update_booking_def insert_message_def
      split: option.splits)

lemma gated_refl: "gated d d"
  by (simp add: gated_def stays_or_advances_def list_all2_same)

lemma gated_update:
  assumes "\<forall>b \<in> set (booking_requests d). b_id b = i \<longrightarrow> b_handoff_step b = Some old"
    and "successor old = Some step"
    and "booking_requests d' = map (\<lambda>b. if b_id b = i then updateData step c b else b) (booking_requests d)"
  shows "gated d d'"
  using assms
  by (auto simp: gated_def list_all2_map2 list_all2_same updateData_def stays_or_advances_def)

lemma gated_confirmHandoff:
  assumes "\<forall>b \<in> set (booking_requests d). b_id b = i \<longrightarrow> b_handoff_step b = Some old"
    and "successor old = Some step"
  shows "gated d (snd (confirmHandoff rt d i s step))"
proof -
  from confirmHandoff_bookings [of rt d i s step]
  consider "booking_requests (snd (confirmHandoff rt d i s step)) = booking_requests d"
    | c where "booking_requests (snd (confirmHandoff rt d i s step)) =
          map (\<lambda>b. if b_id b = i then updateData step c b else b) (booking_requests d)"
    by blast
  then show ?thesis
  proof cases
    case 1
    then show ?thesis
      by (simp add: gated_def stays_or_advances_def list_all2_same)
  next
    case 2
    with assms show ?thesis by (rule gated_update)
  qed
qed

lemma snd_case_result:
  "snd (case r of (Inl e, d') \<Rightarrow> (g e d', d') | (Inr c, d') \<Rightarrow> (f c d', d')) = snd r"
  by (auto split: prod.splits sum.splits)

lemma handleHandoffAction_cases:
  "snd (handleHandoffAction rt (ui, d)) = d
   \<or> (\<exists>uid. isSender ui \<and> handoffStep ui = none \<and>
          snd (handleHandoffAction rt (ui, d))
            = snd (confirmHandoff rt d (bookingRequestId ui) uid sender_confirmed))
   \<or> (\<exists>uid. isTraveler ui \<and> handoffStep ui = sender_confirmed \<and>
          snd (handleHandoffAction rt (ui, d))
            = snd (confirmHandoff rt d (bookingRequestId ui) uid handed_over))"
proof (cases "user ui")
  case None
  then show ?thesis by (simp add: handleHandoffAction_def)
next
  case (Some uid)
  then show ?thesis
    by (auto simp: handleHandoffAction_def snd_case_result)
qed

text \<open>
  C2, as stated, fails: confirmHandoff does not read the booking's current step. Called
  with \<open>sender_confirmed\<close> on a booking that is already delivered, it succeeds and writes
  \<open>sender_confirmed\<close>, a backward step.
\<close>

theorem confirmHandoff_ungated_counterexample:
  "steps_of db_delivered = [Some delivered]
   \<and> fst (confirmHandoff rt_ok db_delivered ''B1'' ''S'' sender_confirmed) = Inr None
   \<and> steps_of (snd (confirmHandoff rt_ok db_delivered ''B1'' ''S'' sender_confirmed))
       = [Some sender_confirmed]
   \<and> successor delivered \<noteq> Some sender_confirmed"
  by (simp add: steps_of_def confirmHandoff_def Let_def systemMessages_def update_booking_def
        insert_message_def updateData_def statusForStep_def db_delivered_def booking_delivered_def
        booking_handed_def db_none_def rt_ok_def)

text \<open>
  C2, amended. The guard is in the chat screen, not in confirmHandoff.
  handleHandoffAction changes the database only for the sender when the screen's cached
  step is \<open>none\<close> (it then requests \<open>sender_confirmed\<close>) or for the traveler when the cached
  step is \<open>sender_confirmed\<close> (it then requests \<open>handed_over\<close>). When the cached step
  equals the stored step of the booking, every stored \<open>handoff_step\<close> stays or moves to
  its immediate successor: no backward step and no skip-ahead.
\<close>

theorem handleHandoffAction_gated:
  "((\<forall>b \<in> set (booking_requests d).
        b_id b = bookingRequestId ui \<longrightarrow> b_handoff_step b = Some (handoffStep ui))
      \<longrightarrow> gated d (snd (handleHandoffAction rt (ui, d))))
   \<and> (snd (handleHandoffAction rt (ui, d)) \<noteq> d
      \<longrightarrow> (isSender ui \<and> handoffStep ui = none) \<or> (isTraveler ui \<and> handoffStep ui = sender_confirmed))"
proof (intro conjI impI)
  assume synced: "\<forall>b \<in> set (booking_requests d).
        b_id b = bookingRequestId ui \<longrightarrow> b_handoff_step b = Some (handoffStep ui)"
  from handleHandoffAction_cases [of rt ui d]
  consider "snd (handleHandoffAction rt (ui, d)) = d"
    | uid where "handoffStep ui = none"
        "snd (handleHandoffAction rt (ui, d))
            = snd (confirmHandoff rt d (bookingRequestId ui) uid sender_confirmed)"
    | uid where "handoffStep ui = sender_confirmed"
        "snd (handleHandoffAction rt (ui, d))
            = snd (confirmHandoff rt d (bookingRequestId ui) uid handed_over)"
    by blast
  then show "gated d (snd (handleHandoffAction rt (ui, d)))"
  proof cases
    case 1
    then show ?thesis by (simp add: gated_refl)
  next
    case 2
    with synced show ?thesis by (simp add: gated_confirmHandoff [where old = none])
  next
    case 3
    with synced show ?thesis by (simp add: gated_confirmHandoff [where old = sender_confirmed])
  qed
next
  assume "snd (handleHandoffAction rt (ui, d)) \<noteq> d"
  with handleHandoffAction_cases [of rt ui d]
  show "(isSender ui \<and> handoffStep ui = none) \<or> (isTraveler ui \<and> handoffStep ui = sender_confirmed)"
    by blast
qed


lemma handoff_eval:
  "steps_of (snd (handleHandoffAction rt_ok (sender_screen, db_none))) = [Some sender_confirmed]"
  "steps_of (snd (handleHandoffAction rt_ok (traveler_screen, db_confirmed))) = [Some handed_over]"
  by (simp_all add: steps_of_def handleHandoffAction_def sender_screen_def traveler_screen_def
        confirmHandoff_def Let_def systemMessages_def update_booking_def insert_message_def
        updateData_def statusForStep_def db_none_def db_confirmed_def booking1_def rt_ok_def
        split: prod.splits sum.splits)

theorem handleHandoffAction_gated_witness:
  "steps_of db_none = [Some none]
   \<and> handoffStep sender_screen = none \<and> isSender sender_screen
   \<and> steps_of (snd (handleHandoffAction rt_ok (sender_screen, db_none))) = [Some sender_confirmed]
   \<and> gated db_none (snd (handleHandoffAction rt_ok (sender_screen, db_none)))
   \<and> steps_of db_confirmed = [Some sender_confirmed]
   \<and> handoffStep traveler_screen = sender_confirmed \<and> isTraveler traveler_screen
   \<and> steps_of (snd (handleHandoffAction rt_ok (traveler_screen, db_confirmed))) = [Some handed_over]
   \<and> gated db_confirmed (snd (handleHandoffAction rt_ok (traveler_screen, db_confirmed)))"
proof -
  have s: "\<forall>b \<in> set (booking_requests db_none).
        b_id b = bookingRequestId sender_screen \<longrightarrow> b_handoff_step b = Some (handoffStep sender_screen)"
    by (simp add: db_none_def booking1_def sender_screen_def)
  have t: "\<forall>b \<in> set (booking_requests db_confirmed).
        b_id b = bookingRequestId traveler_screen \<longrightarrow> b_handoff_step b = Some (handoffStep traveler_screen)"
    by (simp add: db_confirmed_def db_none_def booking1_def traveler_screen_def)
  have gs: "gated db_none (snd (handleHandoffAction rt_ok (sender_screen, db_none)))"
    using handleHandoffAction_gated [of db_none sender_screen rt_ok] s by blast
  have gt: "gated db_confirmed (snd (handleHandoffAction rt_ok (traveler_screen, db_confirmed)))"
    using handleHandoffAction_gated [of db_confirmed traveler_screen rt_ok] t by blast
  have before: "steps_of db_none = [Some none]" "steps_of db_confirmed = [Some sender_confirmed]"
    "handoffStep sender_screen = none" "isSender sender_screen"
    "handoffStep traveler_screen = sender_confirmed" "isTraveler traveler_screen"
    by (simp_all add: steps_of_def db_none_def db_confirmed_def booking1_def sender_screen_def
          traveler_screen_def)
  show ?thesis
    by (intro conjI before handoff_eval gs gt)
qed

subsection \<open>Two sessions advancing one booking\<close>

lemma validate_step_thrice:
  "validate_step c (validate_step c (validate_step c (At_select, d)))
     = (Returned (fst (call c d)), snd (call c d))"
  by (simp add: validate_step_def call_def validateDeliveryCode_def Let_def
      split: sum.splits)

lemma interleave_sequential:
  "interleave c1 c2 one_after_the_other (At_select, At_select, d)
     = (Returned (fst (call c1 d)), Returned (fst (call c2 (snd (call c1 d)))),
        snd (call c2 (snd (call c1 d))))"
proof -
  obtain r1 d1 where one: "validate_step c1 (validate_step c1 (validate_step c1 (At_select, d))) = (Returned r1, d1)"
    and r1: "r1 = fst (call c1 d)" and d1: "d1 = snd (call c1 d)"
    by (simp add: validate_step_thrice)
  obtain r2 d2 where two: "validate_step c2 (validate_step c2 (validate_step c2 (At_select, d1))) = (Returned r2, d2)"
    and r2: "r2 = fst (call c2 d1)" and d2: "d2 = snd (call c2 d1)"
    by (simp add: validate_step_thrice)
  have "interleave c1 c2 one_after_the_other (At_select, At_select, d) = (Returned r1, Returned r2, d2)"
    using one two
    by (simp add: one_after_the_other_def split: prod.splits)
  then show ?thesis by (simp add: r1 r2 d1 d2)
qed


lemma filter_update_booking:
  assumes "\<And>b. b_id (f b) = b_id b"
  shows "filter (\<lambda>b. b_id b = i) (map (\<lambda>b. if b_id b = i then f b else b) bs)
           = map f (filter (\<lambda>b. b_id b = i) bs)"
  using assms by (induction bs) auto

lemma delivered_state_rejects:
  "\<not> code_accepted rt2 (delivered_state rt d i s) i code"
proof -
  have "filter (\<lambda>b. b_id b = i) (booking_requests (delivered_state rt d i s))
          = map (\<lambda>b. b\<lparr>b_handoff_step := Some delivered, b_status := status_delivered\<rparr>)
              (filter (\<lambda>b. b_id b = i) (booking_requests d))"
    by (simp add: delivered_state_def filter_update_booking)
  then show ?thesis
    by (auto simp: code_accepted_def split: list.splits)
qed

lemma delivered_messages_delivered_state:
  "length (delivered_messages (delivered_state rt d i s)) = length (delivered_messages d) + 1"
  by (simp add: delivered_messages_def delivered_state_def)

lemma validate_true:
  assumes "validateDeliveryCode rt d i code s = (Inr True, d1)"
  shows "d1 = delivered_state rt d i s"
proof (cases "code_accepted rt d i code")
  case True
  with assms validate_accepts [of rt d i code s] show ?thesis
    by (simp split: if_splits)
next
  case False
  with assms validate_rejects [of rt d i code s] show ?thesis by simp
qed

text \<open>
  C5, as stated, fails: the writes are not conditional on the expected step. When two
  sessions submit the correct code and both selects are served before either update,
  both calls return true and two '[HANDOFF] delivered' system messages are appended.
\<close>

theorem validateDeliveryCode_race_counterexample:
  "fst (interleave submission1 submission2 overlapping (At_select, At_select, db_handed))
     = Returned (Inr True)
   \<and> fst (snd (interleave submission1 submission2 overlapping (At_select, At_select, db_handed)))
     = Returned (Inr True)
   \<and> length (delivered_messages db_handed) = 0
   \<and> length (delivered_messages
        (snd (snd (interleave submission1 submission2 overlapping (At_select, At_select, db_handed)))))
     = 2"
  by (simp add: overlapping_def submission1_def submission2_def validate_step_def request_def
        single_def code_matches_def update_booking_def set_delivered_def insert_message_def
        new_message_def delivered_messages_def example_defs)

text \<open>
  C5, amended. The update of validateDeliveryCode is filtered by the booking id only;
  its guard is the select made before, in a separate request. When two submissions for
  the same booking run one after the other, the second starting after the first has
  returned, and the first returns true, then the second returns false and changes
  nothing, and exactly one '[HANDOFF] delivered' message has been appended.
\<close>

theorem validateDeliveryCode_one_after_the_other:
  "interleave c1 c2 one_after_the_other (At_select, At_select, d)
     = (Returned (fst (call c1 d)), Returned (fst (call c2 (snd (call c1 d)))),
        snd (call c2 (snd (call c1 d))))
   \<and> (s_bookingRequestId c2 = s_bookingRequestId c1 \<and> fst (call c1 d) = Inr True \<longrightarrow>
        call c2 (snd (call c1 d)) = (Inr False, snd (call c1 d))
        \<and> length (delivered_messages (snd (call c1 d))) = length (delivered_messages d) + 1)"
proof (intro conjI impI)
  show "interleave c1 c2 one_after_the_other (At_select, At_select, d)
     = (Returned (fst (call c1 d)), Returned (fst (call c2 (snd (call c1 d)))),
        snd (call c2 (snd (call c1 d))))"
    by (rule interleave_sequential)
next
  assume a: "s_bookingRequestId c2 = s_bookingRequestId c1 \<and> fst (call c1 d) = Inr True"
  then have "call c1 d = (Inr True, snd (call c1 d))"
    by (simp add: prod_eq_iff)
  then have d1: "snd (call c1 d)
      = delivered_state (s_runtime c1) d (s_bookingRequestId c1) (s_senderId c1)"
    unfolding call_def by (rule validate_true)
  show "call c2 (snd (call c1 d)) = (Inr False, snd (call c1 d))"
    using a delivered_state_rejects [of "s_runtime c2" "s_runtime c1" d "s_bookingRequestId c1"
        "s_senderId c1" "s_code c2"]
    by (simp add: d1 [unfolded call_def] call_def validate_rejects)
  show "length (delivered_messages (snd (call c1 d))) = length (delivered_messages d) + 1"
    by (simp add: d1 delivered_messages_delivered_state)
qed


theorem validateDeliveryCode_one_after_the_other_witness:
  "s_bookingRequestId submission2 = s_bookingRequestId submission1
   \<and> fst (call submission1 db_handed) = Inr True
   \<and> call submission2 (snd (call submission1 db_handed))
       = (Inr False, snd (call submission1 db_handed))
   \<and> length (delivered_messages (snd (call submission1 db_handed))) = 1
   \<and> interleave submission1 submission2 one_after_the_other (At_select, At_select, db_handed)
       = (Returned (Inr True), Returned (Inr False), snd (call submission1 db_handed))"
proof -
  have same: "s_bookingRequestId submission2 = s_bookingRequestId submission1"
    by (simp add: submission1_def submission2_def)
  have first: "fst (call submission1 db_handed) = Inr True"
    by (simp add: call_def submission1_def validateDeliveryCode_def request_def single_def
          code_matches_def Let_def example_defs)
  have none_before: "length (delivered_messages db_handed) = 0"
    by (simp add: delivered_messages_def db_handed_def db_none_def)
  note claim = validateDeliveryCode_one_after_the_other [of submission1 submission2 db_handed]
  note second = claim [THEN conjunct2, THEN mp, OF conjI, OF same first]
  have run: "interleave submission1 submission2 one_after_the_other (At_select, At_select, db_handed)
       = (Returned (Inr True), Returned (Inr False), snd (call submission1 db_handed))"
    using claim [THEN conjunct1] second [THEN conjunct1] first by simp
  have count: "length (delivered_messages (snd (call submission1 db_handed))) = 1"
    using second [THEN conjunct2] none_before by simp
  show ?thesis
    by (intro conjI same first second [THEN conjunct1] count run)
qed

subsection \<open>fetchConversations\<close>

lemma fetch_loop_map_filter:
  "fetch_loop rt d u bs acc = acc @ List.map_filter (conversation_of rt d u) bs"
  by (induction bs arbitrary: acc) (simp_all split: option.splits)

lemma mset_insert_by: "mset (insert_by cmp x ys) = add_mset x (mset ys)"
  by (induction ys) simp_all

lemma mset_js_sort: "mset (js_sort cmp xs) = mset xs"
  by (induction xs) (simp_all add: js_sort_def mset_insert_by)

lemma set_insert_by: "set (insert_by cmp x ys) = insert x (set ys)"
  by (induction ys) auto

lemma sorted_insert_by:
  assumes total: "\<And>a b. cmp a b \<le> 0 \<or> cmp b a \<le> 0"
    and trans: "\<And>a b c. cmp a b \<le> 0 \<Longrightarrow> cmp b c \<le> 0 \<Longrightarrow> cmp a c \<le> 0"
    and sorted: "sorted_wrt (\<lambda>a b. cmp a b \<le> 0) ys"
  shows "sorted_wrt (\<lambda>a b. cmp a b \<le> 0) (insert_by cmp x ys)"
  using sorted
proof (induction ys)
  case Nil
  then show ?case by simp
next
  case (Cons y ys)
  from Cons.prems have tail: "sorted_wrt (\<lambda>a b. cmp a b \<le> 0) ys"
    and head: "\<forall>z \<in> set ys. cmp y z \<le> 0"
    by simp_all
  show ?case
  proof (cases "cmp x y \<le> 0")
    case True
    have "\<forall>z \<in> set ys. cmp x z \<le> 0"
    proof
      fix z assume "z \<in> set ys"
      with head have "cmp y z \<le> 0" by simp
      with True show "cmp x z \<le> 0" by (rule trans)
    qed
    with True Cons.prems show ?thesis by simp
  next
    case False
    with total [of x y] have "cmp y x \<le> 0" by simp
    with head have "\<forall>z \<in> set (insert_by cmp x ys). cmp y z \<le> 0"
      by (simp add: set_insert_by)
    moreover have "sorted_wrt (\<lambda>a b. cmp a b \<le> 0) (insert_by cmp x ys)"
      using tail by (rule Cons.IH)
    ultimately show ?thesis using False by simp
  qed
qed

lemma sorted_js_sort:
  assumes "\<And>a b. cmp a b \<le> 0 \<or> cmp b a \<le> 0"
    and "\<And>a b c. cmp a b \<le> 0 \<Longrightarrow> cmp b c \<le> 0 \<Longrightarrow> cmp a c \<le> 0"
  shows "sorted_wrt (\<lambda>a b. cmp a b \<le> 0) (js_sort cmp xs)"
proof (induction xs)
  case Nil
  show ?case by (simp add: js_sort_def)
next
  case (Cons x xs)
  have "sorted_wrt (\<lambda>a b. cmp a b \<le> 0) (insert_by cmp x (js_sort cmp xs))"
  proof (rule sorted_insert_by)
    show "cmp a b \<le> 0 \<or> cmp b a \<le> 0" for a b
      by (rule assms(1))
    show "cmp a c \<le> 0" if "cmp a b \<le> 0" "cmp b c \<le> 0" for a b c
      using that by (rule assms(2))
    show "sorted_wrt (\<lambda>a b. cmp a b \<le> 0) (js_sort cmp xs)"
      by (rule Cons.IH)
  qed
  then show ?case by (simp add: js_sort_def)
qed

lemma compare_newest_first: "compare_conversations a b \<le> 0 \<longleftrightarrow> newest_first a b"
  by (auto simp: compare_conversations_def newest_first_def split: option.splits)

lemma newest_first_total: "newest_first a b \<or> newest_first b a"
  by (auto simp: newest_first_def split: option.splits)

lemma newest_first_trans: "newest_first a b \<Longrightarrow> newest_first b c \<Longrightarrow> newest_first a c"
  by (auto simp: newest_first_def split: option.splits)

lemma sorted_conversations: "sorted_wrt newest_first (js_sort compare_conversations xs)"
proof -
  have "sorted_wrt (\<lambda>a b. compare_conversations a b \<le> 0) (js_sort compare_conversations xs)"
  proof (rule sorted_js_sort)
    show "compare_conversations a b \<le> 0 \<or> compare_conversations b a \<le> 0" for a b
      using newest_first_total [of a b] by (simp add: compare_newest_first)
    show "compare_conversations a c \<le> 0"
      if "compare_conversations a b \<le> 0" "compare_conversations b c \<le> 0" for a b c
      using that newest_first_trans [of a b c] by (simp add: compare_newest_first)
  qed
  then show ?thesis by (simp add: compare_newest_first)
qed


lemma latest_first_Nil: "latest_first [] = []"
  by (simp add: latest_first_def)

lemma latest_first_newest:
  assumes "ms \<noteq> []"
  shows "\<exists>m. latest_first ms = [m] \<and> m \<in> set ms \<and> (\<forall>x \<in> set ms. m_created_at x \<le> m_created_at m)"
proof -
  let ?f = "\<lambda>m. - m_created_at m"
  from assms have "sort_key ?f ms \<noteq> []"
    by (metis length_sort length_0_conv)
  then obtain h t where ht: "sort_key ?f ms = h # t"
    by (cases "sort_key ?f ms") auto
  have "sorted (map ?f (sort_key ?f ms))"
    by (rule sorted_sort_key)
  with ht have below: "\<forall>x \<in> set t. ?f h \<le> ?f x"
    by simp
  have "set (h # t) = set ms"
    using ht set_sort [of ?f ms] by simp
  with below have "h \<in> set ms" "\<forall>x \<in> set ms. m_created_at x \<le> m_created_at h"
    by auto
  moreover from ht have "latest_first ms = [h]"
    by (simp add: latest_first_def)
  ultimately show ?thesis by blast
qed

lemma lastMsg_time:
  "map_option m_created_at (data_of (Inr (case latest_first ms of [] \<Rightarrow> None | m # _ \<Rightarrow> Some m)))
     = (if ms = [] then None else Some (Max (set (map m_created_at ms))))"
proof (cases "ms = []")
  case True
  then show ?thesis by (simp add: latest_first_Nil data_of_def)
next
  case False
  from latest_first_newest [OF False] obtain m where m: "latest_first ms = [m]" "m \<in> set ms"
    "\<forall>x \<in> set ms. m_created_at x \<le> m_created_at m"
    by blast
  then have "Max (m_created_at ` set ms) = m_created_at m"
    by (intro Max_eqI) auto
  with False m show ?thesis by (simp add: data_of_def)
qed

lemma maybeSingle_latest_first:
  "maybeSingle (latest_first ms) = Inr (case latest_first ms of [] \<Rightarrow> None | m # _ \<Rightarrow> Some m)"
proof (cases "ms = []")
  case True
  then show ?thesis by (simp add: latest_first_Nil maybeSingle_def)
next
  case False
  from latest_first_newest [OF False] obtain m where "latest_first ms = [m]" by blast
  then show ?thesis by (simp add: maybeSingle_def)
qed

lemma conversation_of_Some:
  assumes nofail: "\<not> fails rt (FetchConversations_lastMsg (b_id b))"
    and conv: "conversation_of rt d u b = Some c"
  shows "booking_request_id c = b_id b \<and> last_message_at c = latest_time d (b_id b)
         \<and> (latest_time d (b_id b) = None \<longrightarrow> last_message c = None)"
proof -
  let ?ms = "filter (\<lambda>m. m_booking_request_id m = b_id b) (messages d)"
  from conv nofail obtain ann where
    c: "c = \<lparr>booking_request_id = b_id b,
             other_user = other_user c,
             other_user_id = other_user_id c,
             last_message =
               (case data_of (maybeSingle (latest_first ?ms)) of None \<Rightarrow> None
                | Some m \<Rightarrow> or_else (Some (m_content m)) None),
             last_message_at = map_option m_created_at (data_of (maybeSingle (latest_first ?ms))),
             unread_count = unread_count c,
             announcement = announcement c\<rparr>"
    by (auto simp: conversation_of_def request_def Let_def split: sum.splits if_splits)
  have id: "booking_request_id c = b_id b"
    by (subst c) simp
  have at: "last_message_at c = latest_time d (b_id b)"
    by (subst c) (simp add: maybeSingle_latest_first lastMsg_time latest_time_def Let_def)
  have msg: "last_message c = None" if "latest_time d (b_id b) = None"
  proof -
    from that have "?ms = []"
      by (simp add: latest_time_def Let_def split: if_splits)
    then show ?thesis
      by (subst c) (simp add: latest_first_Nil maybeSingle_def data_of_def)
  qed
  from id at msg show ?thesis by blast
qed

lemma conversation_of_defined:
  assumes nofail: "\<not> fails rt (FetchConversations_ann (b_id b))"
    and one: "length (filter (\<lambda>a. a_id a = b_announcement_id b) (announcements d)) = 1"
  shows "conversation_of rt d u b \<noteq> None \<longleftrightarrow> b_user_id b = u \<or> u \<in> set (traveler_of d b)"
proof -
  from one obtain ann where ann: "filter (\<lambda>a. a_id a = b_announcement_id b) (announcements d) = [ann]"
    by (cases "filter (\<lambda>a. a_id a = b_announcement_id b) (announcements d)") auto
  with nofail show ?thesis
    by (auto simp: conversation_of_def request_def single_def traveler_of_def Let_def)
qed

lemma map_filter_ids:
  assumes "\<And>b c. b \<in> set bs \<Longrightarrow> f b = Some c \<Longrightarrow> booking_request_id c = b_id b"
  shows "map booking_request_id (List.map_filter f bs) = map b_id (filter (\<lambda>b. f b \<noteq> None) bs)"
  using assms by (induction bs) (auto split: option.splits)

lemma set_map_filter: "set (List.map_filter f bs) = {c. \<exists>b \<in> set bs. f b = Some c}"
  by (induction bs) (auto split: option.splits)


lemma qualifying_filter:
  assumes ok: "lookups_succeed rt" and res: "announcements_resolve d"
  shows "filter (\<lambda>b. conversation_of rt d u b \<noteq> None)
           (filter (\<lambda>b. b_status b \<notin> set [pending, rejected, cancelled]) (booking_requests d))
         = filter (qualifies d u) (booking_requests d)"
proof -
  have "conversation_of rt d u b \<noteq> None \<longleftrightarrow> b_user_id b = u \<or> u \<in> set (traveler_of d b)"
    if "b \<in> set (booking_requests d)" for b
  proof (rule conversation_of_defined)
    show "\<not> fails rt (FetchConversations_ann (b_id b))"
      using ok by (simp add: lookups_succeed_def)
    show "length (filter (\<lambda>a. a_id a = b_announcement_id b) (announcements d)) = 1"
      using res that by (simp add: announcements_resolve_def list_all_iff)
  qed
  then have "filter (\<lambda>b. b_status b \<notin> set [pending, rejected, cancelled] \<and> conversation_of rt d u b \<noteq> None)
               (booking_requests d)
             = filter (qualifies d u) (booking_requests d)"
    by (intro filter_cong refl) (auto simp: qualifies_def)
  then show ?thesis by (simp only: filter_filter)
qed

text \<open>
  C8. When the lookups of bookings, announcements and latest messages succeed and every
  booking refers to exactly one announcement, fetchConversations returns one
  conversation for each booking in which the user is the sender or the owner of the
  announcement and whose status is not pending, rejected or cancelled, and no other.
  The list is ordered by the time of the latest message, newest first, conversations
  without a message last. Each conversation carries the time of the latest message of
  its booking; a booking with no message is listed with no time and no preview.
\<close>

theorem fetchConversations_inbox:
  "lookups_succeed rt \<and> announcements_resolve d \<longrightarrow>
     (\<exists>convs. fetchConversations rt d u = Inr convs
        \<and> mset (map booking_request_id convs)
            = mset (map b_id (filter (qualifies d u) (booking_requests d)))
        \<and> sorted_wrt newest_first convs
        \<and> (\<forall>c \<in> set convs.
              last_message_at c = latest_time d (booking_request_id c)
              \<and> (latest_time d (booking_request_id c) = None \<longrightarrow> last_message c = None)))"
proof
  assume a: "lookups_succeed rt \<and> announcements_resolve d"
  then have ok: "lookups_succeed rt" and res: "announcements_resolve d"
    by simp_all
  let ?bs = "filter (\<lambda>b. b_status b \<notin> set [pending, rejected, cancelled]) (booking_requests d)"
  let ?pushed = "List.map_filter (conversation_of rt d u) ?bs"
  let ?convs = "js_sort compare_conversations ?pushed"
  have built: "\<And>b c. conversation_of rt d u b = Some c \<Longrightarrow>
      booking_request_id c = b_id b \<and> last_message_at c = latest_time d (b_id b)
      \<and> (latest_time d (b_id b) = None \<longrightarrow> last_message c = None)"
    using ok by (intro conversation_of_Some) (simp_all add: lookups_succeed_def)
  have result: "fetchConversations rt d u = Inr ?convs"
    using ok by (simp add: fetchConversations_def request_def lookups_succeed_def
        fetch_loop_map_filter)
  have "map booking_request_id ?pushed = map b_id (filter (\<lambda>b. conversation_of rt d u b \<noteq> None) ?bs)"
    by (rule map_filter_ids) (simp add: built)
  also have "\<dots> = map b_id (filter (qualifies d u) (booking_requests d))"
    using ok res by (simp only: qualifying_filter)
  finally have "mset (map booking_request_id ?pushed)
      = mset (map b_id (filter (qualifies d u) (booking_requests d)))"
    by simp
  moreover have "mset (map booking_request_id ?convs) = mset (map booking_request_id ?pushed)"
    by (simp only: mset_map mset_js_sort)
  ultimately have ids: "mset (map booking_request_id ?convs)
      = mset (map b_id (filter (qualifies d u) (booking_requests d)))"
    by simp
  have sorted: "sorted_wrt newest_first ?convs"
    by (rule sorted_conversations)
  have each: "last_message_at c = latest_time d (booking_request_id c)
              \<and> (latest_time d (booking_request_id c) = None \<longrightarrow> last_message c = None)"
    if "c \<in> set ?convs" for c
  proof -
    from that have "c \<in> set ?pushed"
      by (metis mset_js_sort set_mset_mset)
    then obtain b where "conversation_of rt d u b = Some c"
      by (auto simp: set_map_filter)
    from built [OF this] show ?thesis by simp
  qed
  from result ids sorted each
  show "\<exists>convs. fetchConversations rt d u = Inr convs
        \<and> mset (map booking_request_id convs)
            = mset (map b_id (filter (qualifies d u) (booking_requests d)))
        \<and> sorted_wrt newest_first convs
        \<and> (\<forall>c \<in> set convs.
              last_message_at c = latest_time d (booking_request_id c)
              \<and> (latest_time d (booking_request_id c) = None \<longrightarrow> last_message c = None))"
    by blast
qed


lemmas inbox_defs =
  db_inbox_def db_chat_def db_none_def booking1_def msg1_def msg2_def msg3_def rt_ok_def

lemma inbox_eval:
  "inbox_view (fetchConversations rt_ok db_inbox ''S'')
     = [(''B2'', Some 3000, Some (js ''Other'')), (''B1'', Some 2000, Some (js ''Hi'')),
        (''B3'', None, None)]"
  by (simp add: inbox_view_def conversations_def fetchConversations_def request_def
        conversation_of_def single_def maybeSingle_def data_of_def latest_first_def
        displayProfile_def unread_from_others_def or_else_def truthy_def js_sort_def
        compare_conversations_def Let_def js_def inbox_defs)

theorem fetchConversations_inbox_witness:
  "lookups_succeed rt_ok \<and> announcements_resolve db_inbox
   \<and> map b_id (filter (qualifies db_inbox ''S'') (booking_requests db_inbox)) = [''B1'', ''B2'', ''B3'']
   \<and> inbox_view (fetchConversations rt_ok db_inbox ''S'')
       = [(''B2'', Some 3000, Some (js ''Other'')), (''B1'', Some 2000, Some (js ''Hi'')),
          (''B3'', None, None)]
   \<and> sorted_wrt newest_first (conversations (fetchConversations rt_ok db_inbox ''S''))
   \<and> mset (map booking_request_id (conversations (fetchConversations rt_ok db_inbox ''S'')))
       = mset [''B1'', ''B2'', ''B3'']"
proof -
  have ok: "lookups_succeed rt_ok"
    by (simp add: lookups_succeed_def rt_ok_def)
  have res: "announcements_resolve db_inbox"
    by (simp add: announcements_resolve_def inbox_defs)
  have q: "map b_id (filter (qualifies db_inbox ''S'') (booking_requests db_inbox)) = [''B1'', ''B2'', ''B3'']"
    by (simp add: qualifies_def traveler_of_def inbox_defs)
  from fetchConversations_inbox [of rt_ok db_inbox "''S''"] ok res
  obtain convs where convs: "fetchConversations rt_ok db_inbox ''S'' = Inr convs"
    "mset (map booking_request_id convs)
       = mset (map b_id (filter (qualifies db_inbox ''S'') (booking_requests db_inbox)))"
    "sorted_wrt newest_first convs"
    by blast
  have sorted: "sorted_wrt newest_first (conversations (fetchConversations rt_ok db_inbox ''S''))"
    using convs(1,3) by (simp add: conversations_def)
  have ids: "mset (map booking_request_id (conversations (fetchConversations rt_ok db_inbox ''S'')))
       = mset [''B1'', ''B2'', ''B3'']"
    using convs(1,2) by (simp only: conversations_def sum.case q)
  show ?thesis
    by (intro conjI ok res q inbox_eval sorted ids)
qed

subsection \<open>fetchUserAverageRating\<close>






















end
